theory Spec2Isabelle
  imports Main "HOL-Library.Word" "HOL-Library.Sublist"
begin

section \<open>AuraDoc AI: the capture session, the service wrappers and the audio codec\<close>

text \<open>
  A shallow embedding of \<^verbatim>\<open>src/App.tsx\<close>: the React component's handlers
  (\<^verbatim>\<open>toggleMic\<close>, \<^verbatim>\<open>stopLiveSession\<close>, \<^verbatim>\<open>handleTranslationPhase\<close>,
  \<^verbatim>\<open>handleAnalyze\<close>, \<^verbatim>\<open>handleVerifyMedicine\<close>) and the service module that
  follows it in the same file (\<^verbatim>\<open>withRetry\<close>, \<^verbatim>\<open>encode\<close>, \<^verbatim>\<open>decode\<close> and
  the four request functions).

  Conventions.
  \<^item> A JavaScript string is a \<open>string\<close>; a \<open>char\<close> is one code unit below 256.
  \<^item> The component's \<^verbatim>\<open>useState\<close> cells and \<^verbatim>\<open>useRef\<close> cells are the fields of
    one record \<open>app\<close>; a handler takes the record of the render it was created in and
    returns the record after it has run.
  \<^item> An \<^verbatim>\<open>async\<close> handler that can reject returns \<open>js_error option \<times> app\<close>:
    \<open>Some e\<close> is the rejection, and the record holds the writes made before it.
  \<^item> What the world answers (the microphone prompt, the fragments that arrive during a
    wait, the replies of the model API) is the record \<open>env\<close>.
  \<^item> Two fields of \<open>app\<close> are not in the source: \<open>effects\<close>, the chronological
    list of calls made to the outside, and \<open>inflight\<close>, the translation calls whose
    promise nobody awaits.
  \<^item> The cells these handlers never read or write (the archive, the download and copy
    flags, the two DOM references) are left out of \<open>app\<close>.
\<close>

subsection \<open>Strings\<close>

text \<open>
  \<^verbatim>\<open>String.prototype.trim\<close>, on the white space and line terminators a \<open>char\<close>
  can hold: tab, line feed, vertical tab, form feed, carriage return, space and the
  no-break space.
\<close>

definition is_space :: "char \<Rightarrow> bool" where
  "is_space c =
     (c \<in> set [CHR 0x09, CHR 0x0A, CHR 0x0B, CHR 0x0C, CHR 0x0D, CHR 0x20, CHR 0xA0])"

definition trim :: "string \<Rightarrow> string" where
  "trim t = rev (dropWhile is_space (rev (dropWhile is_space t)))"

text \<open>\<^verbatim>\<open>Array.prototype.join\<close>.\<close>

fun join :: "string \<Rightarrow> string list \<Rightarrow> string" where
  "join sep [] = []"
| "join sep [x] = x"
| "join sep (x # y # ys) = x @ sep @ join sep (y # ys)"

text \<open>
  \<^verbatim>\<open>toLowerCase\<close> on the capital letters below 256 (A to Z, and 192 to 222 but for
  the multiplication sign 215), and \<^verbatim>\<open>String.prototype.includes\<close>.
\<close>

definition lower_char :: "char \<Rightarrow> char" where
  "lower_char c =
     (let n = (of_char c :: nat)
      in if (65 \<le> n \<and> n \<le> 90) \<or> (192 \<le> n \<and> n \<le> 222 \<and> n \<noteq> 215)
         then char_of (n + 32) else c)"

definition toLowerCase :: "string \<Rightarrow> string" where
  "toLowerCase t = map lower_char t"

fun includes_str :: "string \<Rightarrow> string \<Rightarrow> bool" where
  "includes_str [] pat = (pat = [])"
| "includes_str (c # cs) pat = (prefix pat (c # cs) \<or> includes_str cs pat)"

subsection \<open>Errors and the retry wrapper\<close>

record js_error =
  err_name :: string
  err_status :: "int option"
  err_message :: "string option"

definition QuotaError :: js_error where
  "QuotaError = \<lparr>err_name = ''QuotaError'', err_status = None,
     err_message = Some ''System Busy. Processing in queue...''\<rparr>"

definition EmptyTranscript :: js_error where
  "EmptyTranscript = \<lparr>err_name = ''Error'', err_status = None,
     err_message = Some ''Empty transcript''\<rparr>"

definition TypeError :: js_error where
  "TypeError = \<lparr>err_name = ''TypeError'', err_status = None, err_message = None\<rparr>"

definition InvalidCharacterError :: js_error where
  "InvalidCharacterError =
     \<lparr>err_name = ''InvalidCharacterError'', err_status = None, err_message = None\<rparr>"

definition ConnectError :: js_error where
  "ConnectError = \<lparr>err_name = ''Error'', err_status = None, err_message = None\<rparr>"

text \<open>
  The test of \<^verbatim>\<open>withRetry\<close>'s catch block:
  \<^verbatim>\<open>status === 429 || message.includes("quota") || message.includes("limit exceeded")\<close>
  with \<^verbatim>\<open>message = error?.message?.toLowerCase() || ""\<close>.
\<close>

definition is_quota :: "js_error \<Rightarrow> bool" where
  "is_quota e =
     (let message = (case err_message e of None \<Rightarrow> [] | Some m \<Rightarrow> toLowerCase m)
      in err_status e = Some 429 \<or> includes_str message ''quota''
         \<or> includes_str message ''limit exceeded'')"

text \<open>
  \<^verbatim>\<open>withRetry(fn, retries = 2, delay = 200)\<close>. The thunk \<open>fn\<close> has effects, so
  its \<open>k\<close>-th call (counted from 0) has its own outcome \<open>fn k\<close>; the second argument is
  the number of calls made so far. The result is the list of delays slept, in order, and
  the value returned (\<open>Inr\<close>) or the error thrown (\<open>Inl\<close>).
\<close>

fun withRetry :: "(nat \<Rightarrow> js_error + 'a) \<Rightarrow> nat \<Rightarrow> nat \<Rightarrow> nat \<Rightarrow> nat list \<times> (js_error + 'a)" where
  "withRetry fn k retries delay =
     (case fn k of
        Inr v \<Rightarrow> ([], Inr v)
      | Inl e \<Rightarrow>
          if is_quota e then
            (if retries > 0 then
               (case withRetry fn (k + 1) (retries - 1) (delay * 2) of
                  (ds, r) \<Rightarrow> (delay # ds, r))
             else ([], Inl QuotaError))
          else ([], Inl e))"

subsection \<open>The audio codec: \<^verbatim>\<open>encode\<close> and \<^verbatim>\<open>decode\<close>\<close>

text \<open>
  \<^verbatim>\<open>encode\<close> builds a binary string with \<^verbatim>\<open>String.fromCharCode\<close> and calls the
  platform's \<^verbatim>\<open>btoa\<close>; \<^verbatim>\<open>decode\<close> calls \<^verbatim>\<open>atob\<close> and reads the code units
  back. \<^verbatim>\<open>btoa\<close> and \<^verbatim>\<open>atob\<close> are the browser's, modelled here as the HTML
  standard defines them (RFC 4648 base64 with padding; the forgiving decode).
\<close>

type_synonym byte = "8 word"

definition b64_alphabet :: string where
  "b64_alphabet = ''ABCDEFGHIJKLMNOPQRSTUVWXYZabcdefghijklmnopqrstuvwxyz0123456789+/''"

definition b64_char :: "nat \<Rightarrow> char" where
  "b64_char i = b64_alphabet ! i"

fun index_of :: "char \<Rightarrow> string \<Rightarrow> nat option" where
  "index_of c [] = None"
| "index_of c (x # xs) = (if c = x then Some 0 else map_option Suc (index_of c xs))"

definition b64_index :: "char \<Rightarrow> nat option" where
  "b64_index c = index_of c b64_alphabet"

fun btoa :: "string \<Rightarrow> string" where
  "btoa [] = []"
| "btoa [a] =
     (let x = (of_char a :: nat)
      in [b64_char (x div 4), b64_char ((x mod 4) * 16), CHR ''='', CHR ''=''])"
| "btoa [a, b] =
     (let x = (of_char a :: nat); y = (of_char b :: nat)
      in [b64_char (x div 4), b64_char ((x mod 4) * 16 + y div 16),
          b64_char ((y mod 16) * 4), CHR ''=''])"
| "btoa (a # b # c # rest) =
     (let x = (of_char a :: nat); y = (of_char b :: nat); z = (of_char c :: nat)
      in [b64_char (x div 4), b64_char ((x mod 4) * 16 + y div 16),
          b64_char ((y mod 16) * 4 + z div 64), b64_char (z mod 64)] @ btoa rest)"

definition ascii_whitespace :: "char \<Rightarrow> bool" where
  "ascii_whitespace c = (c \<in> set [CHR 0x09, CHR 0x0A, CHR 0x0C, CHR 0x0D, CHR 0x20])"

text \<open>Forgiving decode, step 2: a length divisible by 4 loses one or two final \<open>=\<close>.\<close>

definition strip_padding :: "string \<Rightarrow> string" where
  "strip_padding d =
     (if length d mod 4 = 0 then
        (case rev d of
           p # q # r \<Rightarrow> if p = CHR ''='' \<and> q = CHR ''='' then rev r
                        else if p = CHR ''='' then rev (q # r) else d
         | [p] \<Rightarrow> if p = CHR ''='' then [] else d
         | [] \<Rightarrow> d)
      else d)"

text \<open>Step 4: a code point outside the alphabet is a failure.\<close>

fun sextets :: "string \<Rightarrow> nat list option" where
  "sextets [] = Some []"
| "sextets (c # cs) =
     (case b64_index c of None \<Rightarrow> None
      | Some i \<Rightarrow> (case sextets cs of None \<Rightarrow> None | Some js \<Rightarrow> Some (i # js)))"

text \<open>The bit buffer: 24 bits give three bytes; 12 or 18 left over give one or two.\<close>

fun from_sextets :: "nat list \<Rightarrow> string" where
  "from_sextets (s0 # s1 # s2 # s3 # rest) =
     [char_of (s0 * 4 + s1 div 16), char_of ((s1 mod 16) * 16 + s2 div 4),
      char_of ((s2 mod 4) * 64 + s3)] @ from_sextets rest"
| "from_sextets [s0, s1, s2] =
     [char_of (s0 * 4 + s1 div 16), char_of ((s1 mod 16) * 16 + s2 div 4)]"
| "from_sextets [s0, s1] = [char_of (s0 * 4 + s1 div 16)]"
| "from_sextets _ = []"

definition atob :: "string \<Rightarrow> string option" where
  "atob data =
     (let d = strip_padding (filter (\<lambda>c. \<not> ascii_whitespace c) data)
      in if length d mod 4 = 1 then None
         else map_option from_sextets (sextets d))"

definition encode :: "byte list \<Rightarrow> string" where
  "encode bytes = btoa (map (\<lambda>b. char_of (unat b)) bytes)"

definition decode :: "string \<Rightarrow> js_error + byte list" where
  "decode base64 =
     (case atob base64 of
        None \<Rightarrow> Inl InvalidCharacterError
      | Some binaryString \<Rightarrow> Inr (map (\<lambda>c. of_nat (of_char c)) binaryString))"

text \<open>The encoder without its padding, and the padding alone (used in the proofs).\<close>

fun btoa_body :: "string \<Rightarrow> string" where
  "btoa_body [] = []"
| "btoa_body [a] =
     (let x = (of_char a :: nat)
      in [b64_char (x div 4), b64_char ((x mod 4) * 16)])"
| "btoa_body [a, b] =
     (let x = (of_char a :: nat); y = (of_char b :: nat)
      in [b64_char (x div 4), b64_char ((x mod 4) * 16 + y div 16),
          b64_char ((y mod 16) * 4)])"
| "btoa_body (a # b # c # rest) =
     (let x = (of_char a :: nat); y = (of_char b :: nat); z = (of_char c :: nat)
      in [b64_char (x div 4), b64_char ((x mod 4) * 16 + y div 16),
          b64_char ((y mod 16) * 4 + z div 64), b64_char (z mod 64)] @ btoa_body rest)"

fun padding :: "string \<Rightarrow> string" where
  "padding [] = []"
| "padding [a] = ''==''"
| "padding [a, b] = ''=''"
| "padding (a # b # c # rest) = padding rest"

definition in_alphabet :: "char \<Rightarrow> bool" where
  "in_alphabet c = (\<exists>i<64. c = b64_char i)"

subsection \<open>The data model (\<^verbatim>\<open>types.ts\<close>)\<close>

datatype voice_role = Doctor | Patient | Scribe

datatype ConsultationMode = UNILINGUAL | BILINGUAL

datatype AppStep = SPLASH | WELCOME | PATIENT_ENTRY | CAPTURE | SUMMARY | PRESCRIPTION
  | FINALIZE | ARCHIVE

datatype ProcessingStatus = IDLE | PROCESSING | COMPLETED | ERROR

datatype verification = Pending | Verified | Warning

datatype food_relation = BeforeFood | AfterFood

record Message =
  role :: voice_role
  original_m :: string
  translated :: "string option"
  timestamp :: nat

record ScribeBlock =
  original :: string
  refined :: "string option"

text \<open>\<^verbatim>\<open>VerifiedPrescription\<close>: a \<^verbatim>\<open>Prescription\<close> with the two optional fields.\<close>

record Prescription =
  medicineName :: string
  dosage :: string
  morning :: bool
  afternoon :: bool
  evening :: bool
  night :: bool
  relationToFood :: food_relation
  duration :: string
  verificationStatus :: "verification option"
  verificationError :: "string option"

record ICD10Code =
  code :: string
  description :: string

record PatientDemographics =
  name :: string
  age :: string
  gender :: string

record SOAPSummary =
  subjective :: string
  objective :: string
  assessment :: string
  plan :: string

record ConsultationDraft =
  draft_id :: string
  date :: string
  normalizedTranscript :: string
  demographics :: PatientDemographics
  soap :: SOAPSummary
  prescriptions :: "Prescription list"
  suggestedICD10 :: "ICD10Code list"
  followUpRecommendation :: "string option"
  doctorApprovalRequired :: string

subsection \<open>The outside world\<close>

record translation =
  translatedText :: string
  audioData :: string

record audit =
  isValid :: bool
  errorMsg :: "string option"

text \<open>
  A translation whose reply is awaited: the role, the text and the two languages that
  \<^verbatim>\<open>handleTranslationPhase\<close> holds across its \<^verbatim>\<open>await\<close>.
\<close>

type_synonym task = "voice_role \<times> string \<times> string \<times> string"

text \<open>
  The places inside the \<^verbatim>\<open>try\<close> of \<^verbatim>\<open>toggleMic\<close> where a call can throw:
  \<^verbatim>\<open>getUserMedia\<close>; the \<^verbatim>\<open>AudioContext\<close> constructor;
  \<^verbatim>\<open>audioContext.resume()\<close>; \<^verbatim>\<open>connectLiveSession\<close> (the client's
  constructor, or \<^verbatim>\<open>ai.live.connect\<close> itself); and the audio graph
  (\<^verbatim>\<open>createMediaStreamSource\<close>, \<^verbatim>\<open>createScriptProcessor\<close>, the two
  \<^verbatim>\<open>connect\<close> calls).
\<close>

datatype start_step = AtGetUserMedia | AtAudioContext | AtResume | AtConnect | AtAudioGraph

text \<open>
  The \<open>gen_\<close> fields are the replies of \<^verbatim>\<open>ai.models.generateContent\<close> to the
  request each service function builds, by call number; a reply's text may be absent.
  \<open>late\<close> are the transcript fragments that arrive during the wait of
  \<^verbatim>\<open>stopLiveSession\<close>. \<open>startFails\<close> is the call of \<^verbatim>\<open>toggleMic\<close>'s
  \<^verbatim>\<open>try\<close> that throws, if any. \<open>early\<close> and \<open>onResume\<close> are the translations
  whose reply arrives while \<^verbatim>\<open>toggleMic\<close> awaits \<^verbatim>\<open>getUserMedia\<close> and
  \<^verbatim>\<open>audioContext.resume()\<close>, in the order of arrival.
\<close>

record env =
  late :: "string list"
  closeThrows :: bool
  startFails :: "start_step option"
  early :: "task list"
  onResume :: "task list"
  connectResolves :: bool
  playbackFails :: bool
  nowDate :: nat
  nowISO :: string
  randomUUID :: string
  gen_refine :: "string \<Rightarrow> string \<Rightarrow> nat \<Rightarrow> js_error + string option"
  gen_translate :: "string \<Rightarrow> string \<Rightarrow> string \<Rightarrow> nat \<Rightarrow> js_error + string option"
  gen_tts :: "string \<Rightarrow> nat \<Rightarrow> js_error + string option"
  gen_soap :: "string \<Rightarrow> nat \<Rightarrow> js_error + ConsultationDraft"
  gen_verify :: "string \<Rightarrow> string \<Rightarrow> nat \<Rightarrow> js_error + audit"

subsection \<open>The service functions\<close>

definition refineToMedicalEnglish :: "env \<Rightarrow> string \<Rightarrow> string \<Rightarrow> js_error + string" where
  "refineToMedicalEnglish E txt fromLang =
     (if trim txt = [] then Inr []
      else snd (withRetry
        (\<lambda>k. case gen_refine E txt fromLang k of
               Inl e \<Rightarrow> Inl e
             | Inr response \<Rightarrow> Inr (case response of None \<Rightarrow> [] | Some x \<Rightarrow> trim x))
        0 2 200))"

definition translateAndSpeak :: "env \<Rightarrow> string \<Rightarrow> string \<Rightarrow> string \<Rightarrow> js_error + translation" where
  "translateAndSpeak E txt from to =
     (if trim txt = [] then Inr \<lparr>translatedText = [], audioData = []\<rparr>
      else snd (withRetry
        (\<lambda>k. case gen_translate E txt from to k of
               Inl e \<Rightarrow> Inl e
             | Inr textResponse \<Rightarrow>
                 (let tt = (case textResponse of
                              None \<Rightarrow> ''...''
                            | Some x \<Rightarrow> if trim x = [] then ''...'' else trim x)
                  in case gen_tts E tt k of
                       Inl e \<Rightarrow> Inl e
                     | Inr audioPart \<Rightarrow>
                         Inr \<lparr>translatedText = tt,
                              audioData = (case audioPart of None \<Rightarrow> [] | Some d \<Rightarrow> d)\<rparr>))
        0 2 200))"

definition processConsultation :: "env \<Rightarrow> string \<Rightarrow> js_error + ConsultationDraft" where
  "processConsultation E transcript =
     (if trim transcript = [] then Inl EmptyTranscript
      else snd (withRetry
        (\<lambda>k. case gen_soap E transcript k of
               Inl e \<Rightarrow> Inl e
             | Inr d \<Rightarrow> Inr (d\<lparr>draft_id := randomUUID E, date := nowISO E\<rparr>))
        0 2 200))"

definition verifyMedication :: "env \<Rightarrow> Prescription \<Rightarrow> js_error + audit" where
  "verifyMedication E med =
     snd (withRetry (\<lambda>k. gen_verify E (medicineName med) (dosage med) k) 0 2 200)"

text \<open>
  The arrow functions that the four service functions hand to \<^verbatim>\<open>withRetry\<close>, as
  functions of the call number: one request for a refinement, a draft or an audit; the
  translation request followed by the speech request for a translation.
\<close>

definition refine_attempt :: "env \<Rightarrow> string \<Rightarrow> string \<Rightarrow> nat \<Rightarrow> js_error + string" where
  "refine_attempt E txt fromLang k =
     (case gen_refine E txt fromLang k of
        Inl e \<Rightarrow> Inl e
      | Inr response \<Rightarrow> Inr (case response of None \<Rightarrow> [] | Some x \<Rightarrow> trim x))"

definition translate_attempt :: "env \<Rightarrow> string \<Rightarrow> string \<Rightarrow> string \<Rightarrow> nat \<Rightarrow> js_error + translation" where
  "translate_attempt E txt from to k =
     (case gen_translate E txt from to k of
        Inl e \<Rightarrow> Inl e
      | Inr textResponse \<Rightarrow>
          (let tt = (case textResponse of
                       None \<Rightarrow> ''...''
                     | Some x \<Rightarrow> if trim x = [] then ''...'' else trim x)
           in case gen_tts E tt k of
                Inl e \<Rightarrow> Inl e
              | Inr audioPart \<Rightarrow>
                  Inr \<lparr>translatedText = tt,
                       audioData = (case audioPart of None \<Rightarrow> [] | Some d \<Rightarrow> d)\<rparr>))"

definition process_attempt :: "env \<Rightarrow> string \<Rightarrow> nat \<Rightarrow> js_error + ConsultationDraft" where
  "process_attempt E transcript k =
     (case gen_soap E transcript k of
        Inl e \<Rightarrow> Inl e
      | Inr d \<Rightarrow> Inr (d\<lparr>draft_id := randomUUID E, date := nowISO E\<rparr>))"

definition verify_attempt :: "env \<Rightarrow> Prescription \<Rightarrow> nat \<Rightarrow> js_error + audit" where
  "verify_attempt E med k = gen_verify E (medicineName med) (dosage med) k"

subsection \<open>The component state\<close>

datatype media_stream = MediaStream

datatype audio_context = AudioContext

text \<open>
  \<^verbatim>\<open>sessionRef.current\<close> holds the promise \<^verbatim>\<open>connectLiveSession\<close> returned: the
  role whose instruction the channel was opened with, and whether the promise resolves.
\<close>

datatype session_promise = SessionPromise voice_role bool

fun sp_role :: "session_promise \<Rightarrow> voice_role" where
  "sp_role (SessionPromise r ok) = r"

fun sp_resolves :: "session_promise \<Rightarrow> bool" where
  "sp_resolves (SessionPromise r ok) = ok"

datatype effect =
    Sleep nat
  | StreamReleased
  | ChannelClosed voice_role bool
  | ContextClosed
  | MicDenied
  | StreamAcquired
  | ChannelOpened voice_role string
  | RefineRequest string string
  | TranslateRequest string string string
  | ProcessRequest string
  | VerifyRequest string string
  | Playback "byte list"
  | ConsoleError

record app =
  step :: AppStep
  mode :: ConsultationMode
  docLang :: string
  patLang :: string
  patientDetails :: PatientDemographics
  scribeBlocks :: "ScribeBlock list"
  messages :: "Message list"
  currentInput :: string
  draft :: "ConsultationDraft option"
  status :: ProcessingStatus
  error :: "string option"
  isLive :: "voice_role option"
  isTranslating :: bool
  isFinalizing :: bool
  sessionRef :: "session_promise option"
  audioContextRef :: "audio_context option"
  streamRef :: "media_stream option"
  currentRoleRef :: "voice_role option"
  capturedTextRef :: string
  effects :: "effect list"
  inflight :: "task list"

text \<open>The state of the first render (the \<^verbatim>\<open>useState\<close> and \<^verbatim>\<open>useRef\<close> initial values).\<close>

definition initial :: app where
  "initial = \<lparr>step = SPLASH, mode = UNILINGUAL, docLang = ''English'', patLang = ''Hindi'',
     patientDetails = \<lparr>name = [], age = [], gender = ''Male''\<rparr>,
     scribeBlocks = [], messages = [], currentInput = [], draft = None, status = IDLE,
     error = None, isLive = None, isTranslating = False, isFinalizing = False,
     sessionRef = None, audioContextRef = None, streamRef = None, currentRoleRef = None,
     capturedTextRef = [], effects = [], inflight = []\<rparr>"

subsection \<open>The handlers\<close>

definition emit :: "effect list \<Rightarrow> app \<Rightarrow> app" where
  "emit es s = s\<lparr>effects := effects s @ es\<rparr>"

text \<open>
  The \<^verbatim>\<open>onInputTranscript\<close> callback that \<^verbatim>\<open>toggleMic\<close> hands to
  \<^verbatim>\<open>connectLiveSession\<close>.
\<close>

definition onInputTranscript :: "string \<Rightarrow> app \<Rightarrow> app" where
  "onInputTranscript txt s =
     s\<lparr>capturedTextRef := capturedTextRef s @ (if capturedTextRef s \<noteq> [] then '' '' else []) @ txt,
       currentInput := (if currentInput s \<noteq> [] then currentInput s @ '' '' else []) @ txt\<rparr>"

definition fragments :: "string list \<Rightarrow> app \<Rightarrow> app" where
  "fragments fs s = foldl (\<lambda>t f. onInputTranscript f t) s fs"

text \<open>Fragments reach the callback only through a channel that is connected.\<close>

definition deliver :: "string list \<Rightarrow> app \<Rightarrow> app" where
  "deliver fs s =
     (case sessionRef s of
        None \<Rightarrow> s
      | Some p \<Rightarrow> if sp_resolves p then fragments fs s else s)"

text \<open>
  \<^verbatim>\<open>cleanupSession\<close>. \<^verbatim>\<open>await sessionRef.current\<close> stands outside the
  \<^verbatim>\<open>try\<close>: a promise that rejects makes the function reject there, after the stream
  was released. An exception of \<^verbatim>\<open>session.close()\<close> is caught and dropped.
\<close>

definition cleanupSession :: "env \<Rightarrow> app \<Rightarrow> js_error option \<times> app" where
  "cleanupSession E s =
     (let s1 = (if streamRef s \<noteq> None then emit [StreamReleased] (s\<lparr>streamRef := None\<rparr>) else s)
      in case sessionRef s1 of
           Some (SessionPromise r False) \<Rightarrow> (Some ConnectError, s1)
         | other \<Rightarrow>
             (let s2 = (case other of
                          None \<Rightarrow> s1
                        | Some p \<Rightarrow> emit [ChannelClosed (sp_role p) (closeThrows E)]
                                     (s1\<lparr>sessionRef := None\<rparr>));
                  s3 = (if audioContextRef s2 \<noteq> None
                        then emit [ContextClosed] (s2\<lparr>audioContextRef := None\<rparr>) else s2)
              in (None, s3)))"

definition resetAllState :: "env \<Rightarrow> app \<Rightarrow> js_error option \<times> app" where
  "resetAllState E s =
     (case cleanupSession E s of
        (Some e, s1) \<Rightarrow> (Some e, s1)
      | (None, s1) \<Rightarrow>
          (None, s1\<lparr>step := WELCOME, scribeBlocks := [], messages := [], draft := None,
                    currentInput := [], error := None,
                    patientDetails := \<lparr>name = [], age = [], gender = ''Male''\<rparr>,
                    capturedTextRef := [], currentRoleRef := None, isTranslating := False,
                    isFinalizing := False, isLive := None, status := IDLE\<rparr>))"

text \<open>
  \<^verbatim>\<open>handleTranslationPhase\<close>, in the two parts its one \<^verbatim>\<open>await\<close> cuts it into:
  up to the call of \<^verbatim>\<open>translateAndSpeak\<close>, and from the reply on.
  \<^verbatim>\<open>stopLiveSession\<close> calls it without \<^verbatim>\<open>await\<close>, so there only the first
  part has run when \<^verbatim>\<open>stopLiveSession\<close> returns.
\<close>

definition translation_task :: "voice_role \<Rightarrow> string \<Rightarrow> app \<Rightarrow> task" where
  "translation_task r txt s =
     (r, txt, (if r = Doctor then docLang s else patLang s),
      (if r = Doctor then patLang s else docLang s))"

definition handleTranslationPhase_begin :: "voice_role \<Rightarrow> string \<Rightarrow> app \<Rightarrow> app" where
  "handleTranslationPhase_begin r txt s =
     (case translation_task r txt s of
        (r', txt', from, to) \<Rightarrow>
          emit [TranslateRequest txt from to]
            (s\<lparr>isTranslating := True, inflight := inflight s @ [(r', txt', from, to)]\<rparr>))"

definition handleTranslationPhase_resume :: "env \<Rightarrow> task \<Rightarrow> app \<Rightarrow> app" where
  "handleTranslationPhase_resume E tk s0 =
     (case tk of
        (r, txt, from, to) \<Rightarrow>
          (let s = s0\<lparr>inflight := remove1 tk (inflight s0)\<rparr>
           in case translateAndSpeak E txt from to of
                Inl e \<Rightarrow> (emit [ConsoleError] s)\<lparr>isTranslating := False\<rparr>
              | Inr result \<Rightarrow>
                  (let newMsg = \<lparr>role = r, original_m = txt,
                                 translated = Some (translatedText result),
                                 timestamp = nowDate E\<rparr>;
                       s1 = s\<lparr>messages := messages s @ [newMsg]\<rparr>;
                       s2 = (if audioData result \<noteq> [] then
                               (case decode (audioData result) of
                                  Inl e \<Rightarrow> emit [ConsoleError] s1
                                | Inr bytes \<Rightarrow>
                                    if playbackFails E then emit [ConsoleError] s1
                                    else emit [Playback bytes] s1)
                             else s1)
                   in s2\<lparr>isTranslating := False\<rparr>)))"

definition handleTranslationPhase :: "env \<Rightarrow> voice_role \<Rightarrow> string \<Rightarrow> app \<Rightarrow> app" where
  "handleTranslationPhase E r txt s =
     handleTranslationPhase_resume E (translation_task r txt s) (handleTranslationPhase_begin r txt s)"

text \<open>The \<^verbatim>\<open>else\<close> branch of \<^verbatim>\<open>stopLiveSession\<close> (lines 121 to 126).\<close>

definition appendScribe :: "string \<Rightarrow> app \<Rightarrow> app" where
  "appendScribe txt s = s\<lparr>scribeBlocks := scribeBlocks s @ [\<lparr>original = txt, refined = None\<rparr>]\<rparr>"

definition attachRefined :: "string \<Rightarrow> string \<Rightarrow> app \<Rightarrow> app" where
  "attachRefined txt r s =
     s\<lparr>scribeBlocks := map (\<lambda>b. if original b = txt then b\<lparr>refined := Some r\<rparr> else b) (scribeBlocks s)\<rparr>"

definition refinePhase :: "env \<Rightarrow> string \<Rightarrow> string \<Rightarrow> app \<Rightarrow> app" where
  "refinePhase E txt lang s =
     (let s1 = emit [RefineRequest txt lang] (appendScribe txt s)
      in case refineToMedicalEnglish E txt lang of
           Inr r \<Rightarrow> attachRefined txt r s1
         | Inl e \<Rightarrow> emit [ConsoleError] s1)"

text \<open>The text \<^verbatim>\<open>stopLiveSession\<close> reads from the buffer after its 400 ms wait.\<close>

definition finalCaptured :: "env \<Rightarrow> app \<Rightarrow> string" where
  "finalCaptured E s = trim (capturedTextRef (deliver (late E) s))"

definition stopLiveSession :: "env \<Rightarrow> app \<Rightarrow> js_error option \<times> app" where
  "stopLiveSession E s =
     (let r = currentRoleRef s;
          s1 = emit [Sleep 400] (s\<lparr>isFinalizing := True\<rparr>);
          s2 = deliver (late E) s1;
          final = trim (capturedTextRef s2)
      in case cleanupSession E s2 of
           (Some e, s3) \<Rightarrow> (Some e, s3)
         | (None, s3) \<Rightarrow>
             (let s4 = s3\<lparr>isLive := None, currentRoleRef := None, capturedTextRef := [],
                         isFinalizing := False, currentInput := []\<rparr>
              in if final = [] then (None, s4)
                 else if mode s = BILINGUAL \<and> (r = Some Doctor \<or> r = Some Patient)
                 then (None, handleTranslationPhase_begin (the r) final s4)
                 else (None, refinePhase E final (docLang s) s4)))"

text \<open>
  While a handler is suspended at an \<^verbatim>\<open>await\<close>, the replies that arrive run the
  rest of \<^verbatim>\<open>handleTranslationPhase\<close> for their translation, if it is still in
  flight. This is applied at the two waits of \<^verbatim>\<open>toggleMic\<close> that follow the stop,
  where the reply to the translation the stop has just requested can arrive. The waits
  inside \<^verbatim>\<open>stopLiveSession\<close> come before that request; a reply that arrives there
  belongs to an earlier utterance and is left to its own resume step.
\<close>

definition settle :: "env \<Rightarrow> task list \<Rightarrow> app \<Rightarrow> app" where
  "settle E tks s =
     foldl (\<lambda>t tk. if tk \<in> set (inflight t) then handleTranslationPhase_resume E tk t else t) s tks"

text \<open>
  \<^verbatim>\<open>toggleMic\<close> from \<^verbatim>\<open>setError(null)\<close> on (lines 153 to 191). Every throw
  inside the \<^verbatim>\<open>try\<close> ends in the one \<^verbatim>\<open>catch\<close>, which only sets the error
  text: the references assigned before the throw stay assigned, and \<open>isLive\<close> is not
  set. The promise of \<^verbatim>\<open>connectLiveSession\<close> is stored unawaited, so a connection
  that fails shows only at the next \<^verbatim>\<open>cleanupSession\<close>.
\<close>

definition start_error :: "app \<Rightarrow> app" where
  "start_error s = s\<lparr>error := Some ''Microphone access restricted.''\<rparr>"

definition startCapture :: "env \<Rightarrow> voice_role \<Rightarrow> string \<Rightarrow> app \<Rightarrow> app" where
  "startCapture E r targetLang s =
     (let s1 = settle E (early E) (s\<lparr>error := None, currentInput := [], capturedTextRef := []\<rparr>)
      in if startFails E = Some AtGetUserMedia then start_error (emit [MicDenied] s1)
         else
           (let s2 = (emit [StreamAcquired] s1)\<lparr>streamRef := Some MediaStream\<rparr>
            in if startFails E = Some AtAudioContext then start_error s2
               else
                 (let s3 = settle E (onResume E) s2
                  in if startFails E = Some AtResume then start_error s3
                     else
                       (let s4 = s3\<lparr>audioContextRef := Some AudioContext,
                                   currentRoleRef := Some r\<rparr>
                        in if startFails E = Some AtConnect then start_error s4
                           else
                             (let s5 = (emit [ChannelOpened r targetLang] s4)
                                    \<lparr>sessionRef := Some (SessionPromise r (connectResolves E))\<rparr>
                              in if startFails E = Some AtAudioGraph then start_error s5
                                 else s5\<lparr>isLive := Some r\<rparr>)))))"

text \<open>
  \<^verbatim>\<open>toggleMic\<close>: the role that is live stops; any other role stops the live one,
  if there is one, and then starts.
\<close>

definition toggleMic :: "env \<Rightarrow> voice_role \<Rightarrow> app \<Rightarrow> js_error option \<times> app" where
  "toggleMic E r s =
     (if isLive s = Some r then stopLiveSession E s
      else
        (case (if isLive s \<noteq> None then stopLiveSession E s else (None, s)) of
           (Some e, s1) \<Rightarrow> (Some e, s1)
         | (None, s1) \<Rightarrow>
             (None, startCapture E r (if r = Patient then patLang s else docLang s) s1)))"

text \<open>
  \<^verbatim>\<open>handleVerifyMedicine\<close>. The assignment to \<^verbatim>\<open>newList[idx]\<close> writes into the
  object that \<^verbatim>\<open>draft.prescriptions[idx]\<close> also holds (the spread copies the array,
  not its items), so the later reads of \<^verbatim>\<open>draft.prescriptions\<close> see it. An index
  with no item makes that assignment throw.
\<close>

definition markItem :: "nat \<Rightarrow> verification \<Rightarrow> string option \<Rightarrow> ConsultationDraft \<Rightarrow> ConsultationDraft" where
  "markItem idx st msg d =
     d\<lparr>prescriptions := (prescriptions d)
          [idx := (prescriptions d ! idx)\<lparr>verificationStatus := Some st, verificationError := msg\<rparr>]\<rparr>"

definition markPending :: "nat \<Rightarrow> ConsultationDraft \<Rightarrow> ConsultationDraft" where
  "markPending idx d =
     d\<lparr>prescriptions := (prescriptions d)
          [idx := (prescriptions d ! idx)\<lparr>verificationStatus := Some Pending\<rparr>]\<rparr>"

text \<open>The handler up to its \<^verbatim>\<open>await\<close>, and from the reply of the audit on.\<close>

definition verifyBegin :: "nat \<Rightarrow> ConsultationDraft \<Rightarrow> app \<Rightarrow> app" where
  "verifyBegin idx d0 s =
     (let d = markPending idx d0;
          med = prescriptions d ! idx
      in emit [VerifyRequest (medicineName med) (dosage med)] (s\<lparr>draft := Some d\<rparr>))"

definition verifyResume :: "js_error + audit \<Rightarrow> nat \<Rightarrow> ConsultationDraft \<Rightarrow> app \<Rightarrow> app" where
  "verifyResume reply idx d s =
     (case reply of
        Inr result \<Rightarrow>
          s\<lparr>draft := Some (markItem idx
              (if isValid result then Verified else Warning) (errorMsg result) d)\<rparr>
      | Inl e \<Rightarrow>
          s\<lparr>draft := Some (markItem idx Warning (Some ''Audit timeout.'') d)\<rparr>)"

definition handleVerifyMedicine :: "env \<Rightarrow> nat \<Rightarrow> app \<Rightarrow> js_error option \<times> app" where
  "handleVerifyMedicine E idx s =
     (case draft s of
        None \<Rightarrow> (None, s)
      | Some d0 \<Rightarrow>
          if \<not> idx < length (prescriptions d0) then (Some TypeError, s)
          else
            (let s1 = verifyBegin idx d0 s;
                 d = markPending idx d0
             in (None, verifyResume (verifyMedication E (prescriptions d ! idx)) idx d s1)))"

text \<open>
  \<^verbatim>\<open>handleAnalyze\<close>. \<^verbatim>\<open>scribeBlocks\<close>, \<^verbatim>\<open>messages\<close>, \<^verbatim>\<open>mode\<close> and
  \<^verbatim>\<open>patientDetails\<close> are the values of the render the handler was created in.
\<close>

definition role_name :: "voice_role \<Rightarrow> string" where
  "role_name r = (case r of Doctor \<Rightarrow> ''Doctor'' | Patient \<Rightarrow> ''Patient'' | Scribe \<Rightarrow> ''Scribe'')"

definition or_undefined :: "string option \<Rightarrow> string" where
  "or_undefined v = (case v of None \<Rightarrow> ''undefined'' | Some x \<Rightarrow> x)"

definition transcriptText :: "app \<Rightarrow> string" where
  "transcriptText s =
     (if mode s = UNILINGUAL
      then join [CHR 0x0A]
             (map (\<lambda>b. original b @ '' (Refined: '' @ or_undefined (refined b) @ '')'') (scribeBlocks s))
      else join [CHR 0x0A]
             (map (\<lambda>m. role_name (role m) @ '': '' @ original_m m @ '' (interpreted: ''
                        @ or_undefined (translated m) @ '')'') (messages s)))"

definition analyze :: "env \<Rightarrow> string \<Rightarrow> PatientDemographics \<Rightarrow> app \<Rightarrow> app" where
  "analyze E txt details s =
     (let s1 = emit [ProcessRequest txt] (s\<lparr>status := PROCESSING, error := None\<rparr>)
      in case processConsultation E txt of
           Inr res \<Rightarrow> s1\<lparr>draft := Some (res\<lparr>demographics := details\<rparr>), step := SUMMARY, status := IDLE\<rparr>
         | Inl e \<Rightarrow> s1\<lparr>error := Some ''AI analysis error.'', status := IDLE\<rparr>)"

definition handleAnalyze :: "env \<Rightarrow> app \<Rightarrow> js_error option \<times> app" where
  "handleAnalyze E s =
     (case (if isLive s \<noteq> None then stopLiveSession E s else (None, s)) of
        (Some e, s1) \<Rightarrow> (Some e, s1)
      | (None, s1) \<Rightarrow> (None, analyze E (transcriptText s) (patientDetails s) s1))"

text \<open>Concrete worlds and errors, for the closed instances below.\<close>

definition rate_limited :: js_error where
  "rate_limited = \<lparr>err_name = ''ApiError'', err_status = Some 429, err_message = None\<rparr>"

definition quota_message :: js_error where
  "quota_message = \<lparr>err_name = ''ApiError'', err_status = None,
     err_message = Some ''Quota exhausted for this key''\<rparr>"

definition server_error :: js_error where
  "server_error = \<lparr>err_name = ''ApiError'', err_status = Some 500,
     err_message = Some ''internal''\<rparr>"

definition quiet_world :: env where
  "quiet_world = \<lparr>late = [], closeThrows = False, startFails = None, early = [],
     onResume = [], connectResolves = True,
     playbackFails = False, nowDate = 0, nowISO = [], randomUUID = [],
     gen_refine = (\<lambda>t l k. Inr (Some (''Patient reports fever.''))),
     gen_translate = (\<lambda>t f g k. Inr (Some ''namaste'')),
     gen_tts = (\<lambda>t k. Inr None),
     gen_soap = (\<lambda>t k. Inl server_error),
     gen_verify = (\<lambda>n d k. Inr \<lparr>isValid = True, errorMsg = None\<rparr>)\<rparr>"

text \<open>The accumulation step of \<open>onInputTranscript\<close> on one buffer.\<close>

definition accumulate :: "string \<Rightarrow> string \<Rightarrow> string" where
  "accumulate b f = b @ (if b \<noteq> [] then '' '' else []) @ f"

subsection \<open>Predicates and summaries used in the statements\<close>

text \<open>
  The channel promise held in \<open>sessionRef\<close>, if any, resolves (\<open>channel_ok\<close>);
  a channel is there and resolves (\<open>connected\<close>).
\<close>

definition channel_ok :: "app \<Rightarrow> bool" where
  "channel_ok s = (case sessionRef s of None \<Rightarrow> True | Some p \<Rightarrow> sp_resolves p)"

text \<open>What \<open>cleanupSession\<close> does to the outside, for the handles the state holds.\<close>

definition release_effects :: "env \<Rightarrow> app \<Rightarrow> effect list" where
  "release_effects E s =
     (if streamRef s \<noteq> None then [StreamReleased] else [])
     @ (case sessionRef s of None \<Rightarrow> [] | Some p \<Rightarrow> [ChannelClosed (sp_role p) (closeThrows E)])
     @ (if audioContextRef s \<noteq> None then [ContextClosed] else [])"

text \<open>The state \<open>stopLiveSession\<close> reaches at its test of the final text (line 116).\<close>

definition torn_down :: "env \<Rightarrow> app \<Rightarrow> app" where
  "torn_down E s =
     s\<lparr>streamRef := None, sessionRef := None, audioContextRef := None, isLive := None,
       currentRoleRef := None, capturedTextRef := [], isFinalizing := False, currentInput := [],
       effects := effects s @ [Sleep 400] @ release_effects E s\<rparr>"

definition connected :: "app \<Rightarrow> bool" where
  "connected s = (case sessionRef s of None \<Rightarrow> False | Some p \<Rightarrow> sp_resolves p)"

text \<open>The rest of \<open>stopLiveSession\<close> (lines 116 to 127), and the calls it makes.\<close>

definition post_process :: "env \<Rightarrow> app \<Rightarrow> app \<Rightarrow> app" where
  "post_process E s d =
     (if finalCaptured E s = [] then d
      else if mode s = BILINGUAL \<and> (currentRoleRef s = Some Doctor \<or> currentRoleRef s = Some Patient)
      then handleTranslationPhase_begin (the (currentRoleRef s)) (finalCaptured E s) d
      else refinePhase E (finalCaptured E s) (docLang s) d)"

definition post_effects :: "env \<Rightarrow> app \<Rightarrow> effect list" where
  "post_effects E s =
     (let final = finalCaptured E s
      in if final = [] then []
         else if mode s = BILINGUAL \<and> (currentRoleRef s = Some Doctor \<or> currentRoleRef s = Some Patient)
         then [TranslateRequest final
                 (if currentRoleRef s = Some Doctor then docLang s else patLang s)
                 (if currentRoleRef s = Some Doctor then patLang s else docLang s)]
         else RefineRequest final (docLang s)
              # (case refineToMedicalEnglish E final (docLang s) of
                   Inl e \<Rightarrow> [ConsoleError] | Inr r \<Rightarrow> []))"

text \<open>A scribe capture that has heard two fragments; a world where a third arrives late.\<close>

definition late_world :: env where
  "late_world = quiet_world\<lparr>late := [''fever''], closeThrows := True\<rparr>"

definition scribe_speaking :: app where
  "scribe_speaking = fragments [''patient'', ''has''] (startCapture quiet_world Scribe ''English'' initial)"

text \<open>No capture is active and nothing is held or buffered.\<close>

definition idle :: "app \<Rightarrow> bool" where
  "idle s = (isLive s = None \<and> currentRoleRef s = None \<and> sessionRef s = None
     \<and> streamRef s = None \<and> audioContextRef s = None \<and> capturedTextRef s = [])"

text \<open>An interpreter session in which the doctor has said one word; a world out of quota.\<close>

definition doctor_speaking :: app where
  "doctor_speaking =
     fragments [''hi''] (startCapture quiet_world Doctor ''English'' (initial\<lparr>mode := BILINGUAL\<rparr>))"

definition busy_world :: env where
  "busy_world = quiet_world\<lparr>gen_translate := (\<lambda>t f g k. Inl rate_limited),
     gen_refine := (\<lambda>t l k. Inl rate_limited)\<rparr>"

definition repeated_speaking :: app where
  "repeated_speaking = scribe_speaking\<lparr>scribeBlocks := [\<lparr>original = ''patient has fever'', refined = None\<rparr>]\<rparr>"



text \<open>A consultation with one refined block, a draft the model returns, and its world.\<close>

definition noted :: app where
  "noted = initial\<lparr>step := CAPTURE,
     patientDetails := \<lparr>name = ''Asha'', age = ''41'', gender = ''Female''\<rparr>,
     scribeBlocks := [\<lparr>original = ''patient has fever'',
                       refined = Some ''Patient reports fever.''\<rparr>]\<rparr>"

definition paracetamol :: Prescription where
  "paracetamol = \<lparr>medicineName = ''Paracetamol'', dosage = ''500 mg'', morning = True,
     afternoon = False, evening = False, night = True, relationToFood = AfterFood,
     duration = ''3 days'', verificationStatus = None, verificationError = None\<rparr>"

definition ibuprofen :: Prescription where
  "ibuprofen = \<lparr>medicineName = ''Ibuprofen'', dosage = ''40 g'', morning = True,
     afternoon = True, evening = True, night = False, relationToFood = BeforeFood,
     duration = ''5 days'', verificationStatus = None, verificationError = None\<rparr>"

definition sample_draft :: ConsultationDraft where
  "sample_draft = \<lparr>draft_id = [], date = [], normalizedTranscript = ''Patient reports fever.'',
     demographics = \<lparr>name = ''unknown'', age = ''adult'', gender = ''unknown''\<rparr>,
     soap = \<lparr>subjective = ''Fever'', objective = [], assessment = ''Viral fever'',
             plan = ''Rest''\<rparr>,
     prescriptions = [paracetamol, ibuprofen], suggestedICD10 = [],
     followUpRecommendation = None, doctorApprovalRequired = ''yes''\<rparr>"

definition soap_world :: env where
  "soap_world = quiet_world\<lparr>gen_soap := (\<lambda>t k. Inr sample_draft), randomUUID := ''id-1'',
     nowISO := ''2025-01-01T00:00:00.000Z''\<rparr>"

definition audit_world :: env where
  "audit_world = quiet_world\<lparr>gen_verify := (\<lambda>n d k.
     if n = ''Ibuprofen'' then Inr \<lparr>isValid = False, errorMsg = Some ''Dose too high''\<rparr>
     else if n = ''Paracetamol'' then Inr \<lparr>isValid = True, errorMsg = None\<rparr>
     else Inl server_error)\<rparr>"

definition reviewing :: app where
  "reviewing = noted\<lparr>step := PRESCRIPTION, draft := Some sample_draft\<rparr>"

definition offline_world :: env where
  "offline_world = quiet_world\<lparr>gen_verify := (\<lambda>n d k. Inl server_error)\<rparr>"

text \<open>
  What the rest of \<open>handleTranslationPhase\<close> appends for a translation, and what it
  does to the outside: neither depends on the state it resumes in.
\<close>

definition resume_messages :: "env \<Rightarrow> task \<Rightarrow> Message list" where
  "resume_messages E tk =
     (case tk of
        (r, txt, from, to) \<Rightarrow>
          (case translateAndSpeak E txt from to of
             Inl e \<Rightarrow> []
           | Inr result \<Rightarrow> [\<lparr>role = r, original_m = txt,
                              translated = Some (translatedText result),
                              timestamp = nowDate E\<rparr>]))"

definition resume_effects :: "env \<Rightarrow> task \<Rightarrow> effect list" where
  "resume_effects E tk =
     (case tk of
        (r, txt, from, to) \<Rightarrow>
          (case translateAndSpeak E txt from to of
             Inl e \<Rightarrow> [ConsoleError]
           | Inr result \<Rightarrow>
               if audioData result \<noteq> [] then
                 (case decode (audioData result) of
                    Inl e \<Rightarrow> [ConsoleError]
                  | Inr bytes \<Rightarrow> if playbackFails E then [ConsoleError] else [Playback bytes])
               else []))"

text \<open>The effects that acquire or release nothing: a console line, a playback.\<close>

fun background :: "effect \<Rightarrow> bool" where
  "background ConsoleError = True"
| "background (Playback b) = True"
| "background e = False"


text \<open>
  A world where the live connection is refused, and the capture \<open>toggleMic\<close> starts in
  it from the consultation \<open>noted\<close>: the role is live on a channel promise that rejects.
\<close>

definition dead_world :: env where
  "dead_world = quiet_world\<lparr>connectResolves := False\<rparr>"

definition stuck_capture :: app where
  "stuck_capture = snd (toggleMic dead_world Scribe noted)"



text \<open>
  A world where the translation request is refused twice, with status 429 and then with
  a message about the quota, and answered at the third call.
\<close>

definition flaky_world :: env where
  "flaky_world = quiet_world\<lparr>gen_translate :=
     (\<lambda>t f g k. if k = 0 then Inl rate_limited
                else if k = 1 then Inl quota_message
                else Inr (Some ''namaste''))\<rparr>"

text \<open>A world where every request for an audit is refused with status 429.\<close>

definition throttled_world :: env where
  "throttled_world = quiet_world\<lparr>gen_verify := (\<lambda>n d k. Inl rate_limited)\<rparr>"

text \<open>
  A world where the fragment that arrives during the wait of \<^verbatim>\<open>stopLiveSession\<close>
  has white space around it, and one where the reasoning service answers but the live
  connection is refused.
\<close>

definition padded_world :: env where
  "padded_world = quiet_world\<lparr>late := [[CHR 0x20, CHR ''f'', CHR ''e'', CHR ''v'', CHR ''e'',
     CHR ''r'', CHR 0x20, CHR 0x0A, CHR 0x09]]\<rparr>"

definition dead_soap_world :: env where
  "dead_soap_world = soap_world\<lparr>connectResolves := False\<rparr>"

section \<open>The retry wrapper\<close>

declare withRetry.simps [simp del]

lemma withRetry_success: "fn k = Inr v \<Longrightarrow> withRetry fn k retries delay = ([], Inr v)"
  by (simp add: withRetry.simps)

lemma withRetry_other:
  "fn k = Inl e \<Longrightarrow> \<not> is_quota e \<Longrightarrow> withRetry fn k retries delay = ([], Inl e)"
  by (simp add: withRetry.simps)

lemma withRetry_exhausted:
  "fn k = Inl e \<Longrightarrow> is_quota e \<Longrightarrow> withRetry fn k 0 delay = ([], Inl QuotaError)"
  by (simp add: withRetry.simps)

lemma withRetry_again:
  "fn k = Inl e \<Longrightarrow> is_quota e \<Longrightarrow> 0 < retries \<Longrightarrow>
   withRetry fn k retries delay =
     (delay # fst (withRetry fn (k + 1) (retries - 1) (delay * 2)),
      snd (withRetry fn (k + 1) (retries - 1) (delay * 2)))"
  by (simp add: case_prod_beta withRetry.simps [of fn k retries delay])

lemma withRetry_delays:
  "prefix (fst (withRetry fn k retries delay)) (map (\<lambda>i. delay * 2 ^ i) [0..<retries])"
proof (induction fn k retries delay rule: withRetry.induct)
  case (1 fn k retries delay)
  show ?case
  proof (cases "fn k")
    case (Inr v)
    then show ?thesis by (simp add: withRetry_success)
  next
    case (Inl e)
    show ?thesis
    proof (cases "is_quota e \<and> 0 < retries")
      case False
      with Inl show ?thesis
        by (cases "is_quota e") (simp_all add: withRetry_other withRetry_exhausted)
    next
      case True
      then obtain r where r: "retries = Suc r" by (cases retries) auto
      have ih: "prefix (fst (withRetry fn (k + 1) (retries - 1) (delay * 2)))
                  (map (\<lambda>i. delay * 2 * 2 ^ i) [0..<retries - 1])"
        using 1 [OF Inl] True by simp
      have "map (\<lambda>i. delay * 2 ^ i) [0..<retries]
              = delay # map (\<lambda>i. delay * 2 * 2 ^ i) [0..<retries - 1]"
        unfolding r by (simp add: upt_rec [of 0] map_Suc_upt [symmetric] del: upt_Suc)
      with ih Inl True show ?thesis
        by (simp add: withRetry_again)
    qed
  qed
qed

lemma withRetry_default_delays: "prefix (fst (withRetry fn 0 2 200)) [200, 400]"
proof -
  have "map (\<lambda>i. 200 * 2 ^ i) [0..<2] = [200, 400 :: nat]"
    by (simp add: upt_rec [of 0] upt_rec [of 1] upt_rec [of "Suc 0"])
  then show ?thesis
    using withRetry_delays [of fn 0 2 200] by simp
qed

lemma withRetry_twice_then:
  assumes "fn 0 = Inl e0" "is_quota e0" "fn 1 = Inl e1" "is_quota e1"
  shows "withRetry fn 0 2 200 = (200 # 400 # fst (withRetry fn 2 0 800), snd (withRetry fn 2 0 800))"
proof -
  have a: "withRetry fn 0 2 200 = (200 # fst (withRetry fn 1 1 400), snd (withRetry fn 1 1 400))"
    using withRetry_again [of fn 0 e0 2 200] assms by simp
  have "withRetry fn 1 1 400
          = (400 # fst (withRetry fn (1 + 1) (1 - 1) (400 * 2)),
             snd (withRetry fn (1 + 1) (1 - 1) (400 * 2)))"
    using assms by (intro withRetry_again [of fn 1 e1 1 400]) simp_all
  moreover have "(1::nat) + 1 = 2" "(1::nat) - 1 = 0" "(400::nat) * 2 = 800"
    by simp_all
  ultimately have b: "withRetry fn 1 1 400
          = (400 # fst (withRetry fn 2 0 800), snd (withRetry fn 2 0 800))"
    by metis
  show ?thesis unfolding a b by simp
qed

lemma is_quota_rate_limited: "is_quota rate_limited"
  by (simp add: is_quota_def rate_limited_def)

lemma is_quota_quota_message: "is_quota quota_message"
  by code_simp

lemma not_quota_server_error: "\<not> is_quota server_error"
  by code_simp

lemma withRetry_once_then:
  assumes "fn 0 = Inl e0" "is_quota e0"
  shows "withRetry fn 0 2 200 = (200 # fst (withRetry fn 1 1 400), snd (withRetry fn 1 1 400))"
  using withRetry_again [of fn 0 e0 2 200] assms by simp

lemma translate_attempt_reply:
  assumes "gen_translate E txt from to k = Inr (Some t)" "trim t \<noteq> []"
    "gen_tts E (trim t) k = Inr a"
  shows "translate_attempt E txt from to k
    = Inr \<lparr>translatedText = trim t, audioData = (case a of None \<Rightarrow> [] | Some d \<Rightarrow> d)\<rparr>"
  using assms by (simp add: translate_attempt_def)

lemma services_wrapped:
  "verifyMedication E med = snd (withRetry (verify_attempt E med) 0 2 200)"
  "trim txt \<noteq> [] \<Longrightarrow>
     refineToMedicalEnglish E txt lang = snd (withRetry (refine_attempt E txt lang) 0 2 200)"
  "trim txt \<noteq> [] \<Longrightarrow>
     translateAndSpeak E txt lang lang'
       = snd (withRetry (translate_attempt E txt lang lang') 0 2 200)"
  "trim txt \<noteq> [] \<Longrightarrow>
     processConsultation E txt = snd (withRetry (process_attempt E txt) 0 2 200)"
proof -
  have v: "verify_attempt E med = (\<lambda>k. gen_verify E (medicineName med) (dosage med) k)"
    by (rule ext) (simp add: verify_attempt_def)
  show "verifyMedication E med = snd (withRetry (verify_attempt E med) 0 2 200)"
    unfolding v by (simp add: verifyMedication_def)
  have r: "refine_attempt E txt lang
    = (\<lambda>k. case gen_refine E txt lang k of
               Inl e \<Rightarrow> Inl e
             | Inr response \<Rightarrow> Inr (case response of None \<Rightarrow> [] | Some x \<Rightarrow> trim x))"
    by (rule ext) (simp add: refine_attempt_def)
  show "trim txt \<noteq> [] \<Longrightarrow>
     refineToMedicalEnglish E txt lang = snd (withRetry (refine_attempt E txt lang) 0 2 200)"
    unfolding r refineToMedicalEnglish_def by (simp only: if_False)
  have t: "translate_attempt E txt lang lang'
    = (\<lambda>k. case gen_translate E txt lang lang' k of
               Inl e \<Rightarrow> Inl e
             | Inr textResponse \<Rightarrow>
                 (let tt = (case textResponse of
                              None \<Rightarrow> ''...''
                            | Some x \<Rightarrow> if trim x = [] then ''...'' else trim x)
                  in case gen_tts E tt k of
                       Inl e \<Rightarrow> Inl e
                     | Inr audioPart \<Rightarrow>
                         Inr \<lparr>translatedText = tt,
                              audioData = (case audioPart of None \<Rightarrow> [] | Some d \<Rightarrow> d)\<rparr>))"
    by (rule ext) (simp only: translate_attempt_def)
  show "trim txt \<noteq> [] \<Longrightarrow>
     translateAndSpeak E txt lang lang'
       = snd (withRetry (translate_attempt E txt lang lang') 0 2 200)"
    unfolding t translateAndSpeak_def by (simp only: if_False)
  have p: "process_attempt E txt
    = (\<lambda>k. case gen_soap E txt k of
               Inl e \<Rightarrow> Inl e
             | Inr d \<Rightarrow> Inr (d\<lparr>draft_id := randomUUID E, date := nowISO E\<rparr>))"
    by (rule ext) (simp only: process_attempt_def)
  show "trim txt \<noteq> [] \<Longrightarrow>
     processConsultation E txt = snd (withRetry (process_attempt E txt) 0 2 200)"
    unfolding p processConsultation_def by (simp only: if_False)
qed

text \<open>
  C5. A call wrapped in \<open>withRetry\<close> is called again only after a quota or rate-limit
  failure, at most twice, after 200 ms and then 400 ms. The seven possible courses of
  \<open>withRetry fn 0 2 200\<close> are: a success at once; another failure at once, thrown as it
  is; one quota failure and a success, after \<open>[200]\<close>; one quota failure and another
  failure, thrown as it is after \<open>[200]\<close>; two quota failures and a success, after
  \<open>[200, 400]\<close>; three quota failures, which throw the error "System Busy. Processing in
  queue..." after \<open>[200, 400]\<close>; two quota failures and another failure, thrown as it is
  after \<open>[200, 400]\<close>. Each of the four service functions is \<open>withRetry\<close> applied to its
  own attempt, and a request that fails makes the attempt fail with the same error. So a
  translation whose request is refused for quota twice and answered at the third call
  returns that answer after \<open>[200, 400]\<close>; a refinement refused for quota once returns
  the answer to its second request; an audit or a draft whose request is refused for
  quota three times throws the "System Busy" error, and one whose first request fails
  otherwise throws that failure. The error is thrown to the caller of the service
  function: what the handlers then show is their own message.
\<close>

theorem withRetry_policy:
  fixes fn :: "nat \<Rightarrow> js_error + 'a"
  shows
    "(\<forall>v. fn 0 = Inr v \<longrightarrow> withRetry fn 0 2 200 = ([], Inr v))
     \<and> (\<forall>e0. fn 0 = Inl e0 \<and> \<not> is_quota e0 \<longrightarrow> withRetry fn 0 2 200 = ([], Inl e0))
     \<and> (\<forall>e0 v. fn 0 = Inl e0 \<and> is_quota e0 \<and> fn 1 = Inr v
        \<longrightarrow> withRetry fn 0 2 200 = ([200], Inr v))
     \<and> (\<forall>e0 e1. fn 0 = Inl e0 \<and> is_quota e0 \<and> fn 1 = Inl e1 \<and> \<not> is_quota e1
        \<longrightarrow> withRetry fn 0 2 200 = ([200], Inl e1))
     \<and> (\<forall>e0 e1 v. fn 0 = Inl e0 \<and> is_quota e0 \<and> fn 1 = Inl e1 \<and> is_quota e1 \<and> fn 2 = Inr v
        \<longrightarrow> withRetry fn 0 2 200 = ([200, 400], Inr v))
     \<and> (\<forall>e0 e1 e2. fn 0 = Inl e0 \<and> is_quota e0 \<and> fn 1 = Inl e1 \<and> is_quota e1
          \<and> fn 2 = Inl e2 \<and> is_quota e2
        \<longrightarrow> withRetry fn 0 2 200 = ([200, 400], Inl QuotaError))
     \<and> (\<forall>e0 e1 e2. fn 0 = Inl e0 \<and> is_quota e0 \<and> fn 1 = Inl e1 \<and> is_quota e1
          \<and> fn 2 = Inl e2 \<and> \<not> is_quota e2
        \<longrightarrow> withRetry fn 0 2 200 = ([200, 400], Inl e2))
     \<and> prefix (fst (withRetry fn 0 2 200)) [200, 400]
     \<and> err_name QuotaError = ''QuotaError''
     \<and> err_message QuotaError = Some ''System Busy. Processing in queue...''
     \<and> verifyMedication E med = snd (withRetry (verify_attempt E med) 0 2 200)
     \<and> (trim txt \<noteq> [] \<longrightarrow>
          refineToMedicalEnglish E txt lang
            = snd (withRetry (refine_attempt E txt lang) 0 2 200)
          \<and> translateAndSpeak E txt lang lang'
              = snd (withRetry (translate_attempt E txt lang lang') 0 2 200)
          \<and> processConsultation E txt = snd (withRetry (process_attempt E txt) 0 2 200))
     \<and> (\<forall>k. verify_attempt E med k = gen_verify E (medicineName med) (dosage med) k)
     \<and> (\<forall>k e. gen_refine E txt lang k = Inl e \<longrightarrow> refine_attempt E txt lang k = Inl e)
     \<and> (\<forall>k e. gen_soap E txt k = Inl e \<longrightarrow> process_attempt E txt k = Inl e)
     \<and> (\<forall>k e. gen_translate E txt lang lang' k = Inl e \<longrightarrow>
           translate_attempt E txt lang lang' k = Inl e)
     \<and> (\<forall>k t e. gen_translate E txt lang lang' k = Inr (Some t) \<and> trim t \<noteq> []
           \<and> gen_tts E (trim t) k = Inl e \<longrightarrow>
           translate_attempt E txt lang lang' k = Inl e)
     \<and> (\<forall>e0 e1 t a. trim txt \<noteq> []
           \<and> gen_translate E txt lang lang' 0 = Inl e0 \<and> is_quota e0
           \<and> gen_translate E txt lang lang' 1 = Inl e1 \<and> is_quota e1
           \<and> gen_translate E txt lang lang' 2 = Inr (Some t) \<and> trim t \<noteq> []
           \<and> gen_tts E (trim t) 2 = Inr a \<longrightarrow>
           withRetry (translate_attempt E txt lang lang') 0 2 200
             = ([200, 400], Inr \<lparr>translatedText = trim t,
                  audioData = (case a of None \<Rightarrow> [] | Some d \<Rightarrow> d)\<rparr>)
           \<and> translateAndSpeak E txt lang lang'
               = Inr \<lparr>translatedText = trim t,
                  audioData = (case a of None \<Rightarrow> [] | Some d \<Rightarrow> d)\<rparr>)
     \<and> (\<forall>e0 e1 e2. gen_verify E (medicineName med) (dosage med) 0 = Inl e0 \<and> is_quota e0
           \<and> gen_verify E (medicineName med) (dosage med) 1 = Inl e1 \<and> is_quota e1
           \<and> gen_verify E (medicineName med) (dosage med) 2 = Inl e2 \<and> is_quota e2 \<longrightarrow>
           verifyMedication E med = Inl QuotaError)
     \<and> (\<forall>e0. gen_verify E (medicineName med) (dosage med) 0 = Inl e0 \<and> \<not> is_quota e0 \<longrightarrow>
           verifyMedication E med = Inl e0)
     \<and> (\<forall>e0 x. trim txt \<noteq> [] \<and> gen_refine E txt lang 0 = Inl e0 \<and> is_quota e0
           \<and> gen_refine E txt lang 1 = Inr (Some x) \<longrightarrow>
           refineToMedicalEnglish E txt lang = Inr (trim x))
     \<and> (\<forall>e0 e1 e2. trim txt \<noteq> [] \<and> gen_soap E txt 0 = Inl e0 \<and> is_quota e0
           \<and> gen_soap E txt 1 = Inl e1 \<and> is_quota e1
           \<and> gen_soap E txt 2 = Inl e2 \<and> is_quota e2 \<longrightarrow>
           processConsultation E txt = Inl QuotaError)
     \<and> (\<forall>e0. trim txt \<noteq> [] \<and> gen_soap E txt 0 = Inl e0 \<and> \<not> is_quota e0 \<longrightarrow>
           processConsultation E txt = Inl e0)"
proof -
  have c1: "\<forall>v. fn 0 = Inr v \<longrightarrow> withRetry fn 0 2 200 = ([], Inr v)"
    by (simp add: withRetry_success)
  have c2: "\<forall>e0. fn 0 = Inl e0 \<and> \<not> is_quota e0 \<longrightarrow> withRetry fn 0 2 200 = ([], Inl e0)"
    by (simp add: withRetry_other)
  have c3: "\<forall>e0 v. fn 0 = Inl e0 \<and> is_quota e0 \<and> fn 1 = Inr v
        \<longrightarrow> withRetry fn 0 2 200 = ([200], Inr v)"
  proof (intro allI impI)
    fix e0 v
    assume h: "fn 0 = Inl e0 \<and> is_quota e0 \<and> fn 1 = Inr v"
    then have "withRetry fn 0 2 200
        = (200 # fst (withRetry fn 1 1 400), snd (withRetry fn 1 1 400))"
      using withRetry_once_then [of fn e0] by blast
    moreover have "withRetry fn 1 1 400 = ([], Inr v)"
      using h withRetry_success [of fn 1 v 1 400] by blast
    ultimately show "withRetry fn 0 2 200 = ([200], Inr v)" by simp
  qed
  have c4: "\<forall>e0 e1. fn 0 = Inl e0 \<and> is_quota e0 \<and> fn 1 = Inl e1 \<and> \<not> is_quota e1
        \<longrightarrow> withRetry fn 0 2 200 = ([200], Inl e1)"
  proof (intro allI impI)
    fix e0 e1
    assume h: "fn 0 = Inl e0 \<and> is_quota e0 \<and> fn 1 = Inl e1 \<and> \<not> is_quota e1"
    then have "withRetry fn 0 2 200
        = (200 # fst (withRetry fn 1 1 400), snd (withRetry fn 1 1 400))"
      using withRetry_once_then [of fn e0] by blast
    moreover have "withRetry fn 1 1 400 = ([], Inl e1)"
      using h withRetry_other [of fn 1 e1 1 400] by blast
    ultimately show "withRetry fn 0 2 200 = ([200], Inl e1)" by simp
  qed
  have c5: "\<forall>e0 e1 v. fn 0 = Inl e0 \<and> is_quota e0 \<and> fn 1 = Inl e1 \<and> is_quota e1 \<and> fn 2 = Inr v
        \<longrightarrow> withRetry fn 0 2 200 = ([200, 400], Inr v)"
    by (simp add: withRetry_twice_then [of fn] withRetry_success [of fn 2])
  have c6: "\<forall>e0 e1 e2. fn 0 = Inl e0 \<and> is_quota e0 \<and> fn 1 = Inl e1 \<and> is_quota e1
          \<and> fn 2 = Inl e2 \<and> is_quota e2
        \<longrightarrow> withRetry fn 0 2 200 = ([200, 400], Inl QuotaError)"
    by (simp add: withRetry_twice_then [of fn] withRetry_exhausted [of fn 2])
  have c7: "\<forall>e0 e1 e2. fn 0 = Inl e0 \<and> is_quota e0 \<and> fn 1 = Inl e1 \<and> is_quota e1
          \<and> fn 2 = Inl e2 \<and> \<not> is_quota e2
        \<longrightarrow> withRetry fn 0 2 200 = ([200, 400], Inl e2)"
    by (simp add: withRetry_twice_then [of fn] withRetry_other [of fn 2])
  have c8: "prefix (fst (withRetry fn 0 2 200)) [200, 400]"
    by (rule withRetry_default_delays)
  have c9: "err_name QuotaError = ''QuotaError''"
    "err_message QuotaError = Some ''System Busy. Processing in queue...''"
    by (simp_all add: QuotaError_def)
  have c10: "verifyMedication E med = snd (withRetry (verify_attempt E med) 0 2 200)"
    by (rule services_wrapped(1))
  have c11: "trim txt \<noteq> [] \<longrightarrow>
          refineToMedicalEnglish E txt lang
            = snd (withRetry (refine_attempt E txt lang) 0 2 200)
          \<and> translateAndSpeak E txt lang lang'
              = snd (withRetry (translate_attempt E txt lang lang') 0 2 200)
          \<and> processConsultation E txt = snd (withRetry (process_attempt E txt) 0 2 200)"
    using services_wrapped(2) services_wrapped(3) services_wrapped(4) by blast
  have c12: "\<forall>k. verify_attempt E med k = gen_verify E (medicineName med) (dosage med) k"
    by (simp add: verify_attempt_def)
  have c13: "\<forall>k e. gen_refine E txt lang k = Inl e \<longrightarrow> refine_attempt E txt lang k = Inl e"
    by (simp add: refine_attempt_def)
  have c14: "\<forall>k e. gen_soap E txt k = Inl e \<longrightarrow> process_attempt E txt k = Inl e"
    by (simp add: process_attempt_def)
  have c15: "\<forall>k e. gen_translate E txt lang lang' k = Inl e \<longrightarrow>
           translate_attempt E txt lang lang' k = Inl e"
    by (simp add: translate_attempt_def)
  have c16: "\<forall>k t e. gen_translate E txt lang lang' k = Inr (Some t) \<and> trim t \<noteq> []
           \<and> gen_tts E (trim t) k = Inl e \<longrightarrow>
           translate_attempt E txt lang lang' k = Inl e"
    by (simp add: translate_attempt_def)
  have c17: "\<forall>e0 e1 t a. trim txt \<noteq> []
           \<and> gen_translate E txt lang lang' 0 = Inl e0 \<and> is_quota e0
           \<and> gen_translate E txt lang lang' 1 = Inl e1 \<and> is_quota e1
           \<and> gen_translate E txt lang lang' 2 = Inr (Some t) \<and> trim t \<noteq> []
           \<and> gen_tts E (trim t) 2 = Inr a \<longrightarrow>
           withRetry (translate_attempt E txt lang lang') 0 2 200
             = ([200, 400], Inr \<lparr>translatedText = trim t,
                  audioData = (case a of None \<Rightarrow> [] | Some d \<Rightarrow> d)\<rparr>)
           \<and> translateAndSpeak E txt lang lang'
               = Inr \<lparr>translatedText = trim t,
                  audioData = (case a of None \<Rightarrow> [] | Some d \<Rightarrow> d)\<rparr>"
  proof (intro allI impI)
    fix e0 e1 t a
    let ?att = "translate_attempt E txt lang lang'"
    let ?res = "\<lparr>translatedText = trim t,
                  audioData = (case a of None \<Rightarrow> [] | Some d \<Rightarrow> d)\<rparr>"
    assume h: "trim txt \<noteq> []
           \<and> gen_translate E txt lang lang' 0 = Inl e0 \<and> is_quota e0
           \<and> gen_translate E txt lang lang' 1 = Inl e1 \<and> is_quota e1
           \<and> gen_translate E txt lang lang' 2 = Inr (Some t) \<and> trim t \<noteq> []
           \<and> gen_tts E (trim t) 2 = Inr a"
    have a0: "?att 0 = Inl e0" and a1: "?att 1 = Inl e1"
      using h by (simp_all add: translate_attempt_def)
    have a2: "?att 2 = Inr ?res"
      using h translate_attempt_reply [of E "txt" lang lang' 2 t a] by simp
    have w: "withRetry ?att 0 2 200 = ([200, 400], Inr ?res)"
      using withRetry_twice_then [of ?att e0 e1] a0 a1 h withRetry_success [of ?att 2 ?res 0 800] a2
      by simp
    have "translateAndSpeak E txt lang lang' = snd (withRetry ?att 0 2 200)"
      using services_wrapped(3) [of "txt" E lang lang'] h by simp
    then have "translateAndSpeak E txt lang lang' = Inr ?res"
      by (simp add: w)
    with w show "withRetry ?att 0 2 200 = ([200, 400], Inr ?res)
           \<and> translateAndSpeak E txt lang lang' = Inr ?res"
      by simp
  qed
  have c18: "\<forall>e0 e1 e2. gen_verify E (medicineName med) (dosage med) 0 = Inl e0 \<and> is_quota e0
           \<and> gen_verify E (medicineName med) (dosage med) 1 = Inl e1 \<and> is_quota e1
           \<and> gen_verify E (medicineName med) (dosage med) 2 = Inl e2 \<and> is_quota e2 \<longrightarrow>
           verifyMedication E med = Inl QuotaError"
  proof (intro allI impI)
    fix e0 e1 e2
    let ?att = "verify_attempt E med"
    assume h: "gen_verify E (medicineName med) (dosage med) 0 = Inl e0 \<and> is_quota e0
           \<and> gen_verify E (medicineName med) (dosage med) 1 = Inl e1 \<and> is_quota e1
           \<and> gen_verify E (medicineName med) (dosage med) 2 = Inl e2 \<and> is_quota e2"
    have a: "?att 0 = Inl e0" "?att 1 = Inl e1" "?att 2 = Inl e2"
      using h by (simp_all add: verify_attempt_def)
    have "withRetry ?att 0 2 200 = ([200, 400], Inl QuotaError)"
      using withRetry_twice_then [of ?att e0 e1] a h withRetry_exhausted [of ?att 2 e2 800]
      by simp
    then show "verifyMedication E med = Inl QuotaError"
      by (simp add: c10)
  qed
  have c19: "\<forall>e0. gen_verify E (medicineName med) (dosage med) 0 = Inl e0 \<and> \<not> is_quota e0 \<longrightarrow>
           verifyMedication E med = Inl e0"
    by (simp add: c10 withRetry_other [of "verify_attempt E med" 0] verify_attempt_def)
  have c20: "\<forall>e0 x. trim txt \<noteq> [] \<and> gen_refine E txt lang 0 = Inl e0 \<and> is_quota e0
           \<and> gen_refine E txt lang 1 = Inr (Some x) \<longrightarrow>
           refineToMedicalEnglish E txt lang = Inr (trim x)"
  proof (intro allI impI)
    fix e0 x
    let ?att = "refine_attempt E txt lang"
    assume h: "trim txt \<noteq> [] \<and> gen_refine E txt lang 0 = Inl e0 \<and> is_quota e0
           \<and> gen_refine E txt lang 1 = Inr (Some x)"
    have a: "?att 0 = Inl e0" "?att 1 = Inr (trim x)"
      using h by (simp_all add: refine_attempt_def)
    have "withRetry ?att 0 2 200
        = (200 # fst (withRetry ?att 1 1 400), snd (withRetry ?att 1 1 400))"
      using withRetry_once_then [of ?att e0] a h by blast
    moreover have "withRetry ?att 1 1 400 = ([], Inr (trim x))"
      using a withRetry_success [of ?att 1 "trim x" 1 400] by blast
    ultimately have "snd (withRetry ?att 0 2 200) = Inr (trim x)" by simp
    then show "refineToMedicalEnglish E txt lang = Inr (trim x)"
      using c11 h by simp
  qed
  have c21: "\<forall>e0 e1 e2. trim txt \<noteq> [] \<and> gen_soap E txt 0 = Inl e0 \<and> is_quota e0
           \<and> gen_soap E txt 1 = Inl e1 \<and> is_quota e1
           \<and> gen_soap E txt 2 = Inl e2 \<and> is_quota e2 \<longrightarrow>
           processConsultation E txt = Inl QuotaError"
  proof (intro allI impI)
    fix e0 e1 e2
    let ?att = "process_attempt E txt"
    assume h: "trim txt \<noteq> [] \<and> gen_soap E txt 0 = Inl e0 \<and> is_quota e0
           \<and> gen_soap E txt 1 = Inl e1 \<and> is_quota e1
           \<and> gen_soap E txt 2 = Inl e2 \<and> is_quota e2"
    have a: "?att 0 = Inl e0" "?att 1 = Inl e1" "?att 2 = Inl e2"
      using h by (simp_all add: process_attempt_def)
    have "withRetry ?att 0 2 200 = ([200, 400], Inl QuotaError)"
      using withRetry_twice_then [of ?att e0 e1] a h withRetry_exhausted [of ?att 2 e2 800]
      by simp
    then show "processConsultation E txt = Inl QuotaError"
      using c11 h by simp
  qed
  have c22: "\<forall>e0. trim txt \<noteq> [] \<and> gen_soap E txt 0 = Inl e0 \<and> \<not> is_quota e0 \<longrightarrow>
           processConsultation E txt = Inl e0"
  proof (intro allI impI)
    fix e0
    let ?att = "process_attempt E txt"
    assume h: "trim txt \<noteq> [] \<and> gen_soap E txt 0 = Inl e0 \<and> \<not> is_quota e0"
    have a: "?att 0 = Inl e0"
      using h by (simp add: process_attempt_def)
    have "withRetry ?att 0 2 200 = ([], Inl e0)"
      using withRetry_other [of ?att 0 e0 2 200] a h by blast
    then show "processConsultation E txt = Inl e0"
      using c11 h by simp
  qed
  show ?thesis
    by (intro conjI)
      (rule c1 c2 c3 c4 c5 c6 c7 c8 c9 c10 c11 c12 c13 c14 c15 c16 c17 c18 c19 c20 c21 c22)+
qed

theorem withRetry_policy_witness:
  "withRetry (\<lambda>k. if k = 0 then Inl rate_limited else if k = 1 then Inl quota_message
                  else Inr (7::nat)) 0 2 200 = ([200, 400], Inr 7)
   \<and> withRetry (\<lambda>k. if k = 0 then Inl quota_message else Inr (7::nat)) 0 2 200 = ([200], Inr 7)
   \<and> withRetry (\<lambda>k. Inl rate_limited :: js_error + nat) 0 2 200 = ([200, 400], Inl QuotaError)
   \<and> withRetry (\<lambda>k. Inl server_error :: js_error + nat) 0 2 200 = ([], Inl server_error)
   \<and> withRetry (\<lambda>k. if k = 0 then Inl rate_limited else (Inl server_error :: js_error + nat))
        0 2 200 = ([200], Inl server_error)
   \<and> withRetry (translate_attempt flaky_world ''hi'' ''English'' ''Hindi'') 0 2 200
       = ([200, 400], Inr \<lparr>translatedText = ''namaste'', audioData = []\<rparr>)
   \<and> translateAndSpeak flaky_world ''hi'' ''English'' ''Hindi''
       = Inr \<lparr>translatedText = ''namaste'', audioData = []\<rparr>
   \<and> messages (handleTranslationPhase_resume flaky_world (Doctor, ''hi'', ''English'', ''Hindi'')
        initial)
       = [\<lparr>role = Doctor, original_m = ''hi'', translated = Some ''namaste'', timestamp = 0\<rparr>]
   \<and> verifyMedication throttled_world paracetamol = Inl QuotaError
   \<and> verifyMedication offline_world paracetamol = Inl server_error
   \<and> refineToMedicalEnglish busy_world ''hi'' ''English'' = Inl QuotaError
   \<and> processConsultation quiet_world ''hi'' = Inl server_error"
proof -
  let ?f = "\<lambda>k::nat. if k = 0 then Inl rate_limited else if k = 1 then Inl quota_message
                  else (Inr (7::nat) :: js_error + nat)"
  have a: "withRetry ?f 0 2 200 = ([200, 400], Inr 7)"
    using withRetry_policy [of ?f] is_quota_rate_limited is_quota_quota_message by simp
  let ?j = "\<lambda>k::nat. if k = 0 then Inl quota_message else (Inr (7::nat) :: js_error + nat)"
  have b: "withRetry ?j 0 2 200 = ([200], Inr 7)"
    using withRetry_policy [of ?j] is_quota_quota_message by simp
  let ?g = "\<lambda>k::nat. Inl rate_limited :: js_error + nat"
  have c: "withRetry ?g 0 2 200 = ([200, 400], Inl QuotaError)"
    using withRetry_policy [of ?g] is_quota_rate_limited by simp
  let ?h = "\<lambda>k::nat. Inl server_error :: js_error + nat"
  have d: "withRetry ?h 0 2 200 = ([], Inl server_error)"
    using withRetry_policy [of ?h] not_quota_server_error by simp
  let ?i = "\<lambda>k::nat. if k = 0 then Inl rate_limited else (Inl server_error :: js_error + nat)"
  have e: "withRetry ?i 0 2 200 = ([200], Inl server_error)"
    using withRetry_policy [of ?i] is_quota_rate_limited not_quota_server_error by simp
  have hi: "trim ''hi'' = ''hi''" "trim ''namaste'' = ''namaste''"
    by (simp_all add: trim_def is_space_def)
  have fw: "gen_translate flaky_world ''hi'' ''English'' ''Hindi'' 0 = Inl rate_limited"
    "gen_translate flaky_world ''hi'' ''English'' ''Hindi'' 1 = Inl quota_message"
    "gen_translate flaky_world ''hi'' ''English'' ''Hindi'' 2 = Inr (Some ''namaste'')"
    "gen_tts flaky_world ''namaste'' 2 = Inr None" "nowDate flaky_world = 0"
    by (simp_all add: flaky_world_def quiet_world_def)
  have f: "withRetry (translate_attempt flaky_world ''hi'' ''English'' ''Hindi'') 0 2 200
       = ([200, 400], Inr \<lparr>translatedText = ''namaste'', audioData = []\<rparr>)
     \<and> translateAndSpeak flaky_world ''hi'' ''English'' ''Hindi''
       = Inr \<lparr>translatedText = ''namaste'', audioData = []\<rparr>"
    using withRetry_policy [of ?g flaky_world paracetamol "''hi''" "''English''" "''Hindi''"]
      is_quota_rate_limited is_quota_quota_message fw
    by (simp add: hi)
  then have g: "messages (handleTranslationPhase_resume flaky_world
        (Doctor, ''hi'', ''English'', ''Hindi'') initial)
       = [\<lparr>role = Doctor, original_m = ''hi'', translated = Some ''namaste'', timestamp = 0\<rparr>]"
    by (simp add: handleTranslationPhase_resume_def Let_def fw initial_def)
  have tw: "\<And>k. gen_verify throttled_world (medicineName paracetamol) (dosage paracetamol) k
      = Inl rate_limited"
    by (simp add: throttled_world_def)
  have h: "verifyMedication throttled_world paracetamol = Inl QuotaError"
    using withRetry_policy [of ?g throttled_world paracetamol "''hi''" "''English''" "''Hindi''"]
    by (auto simp: is_quota_rate_limited tw)
  have ow: "\<And>k. gen_verify offline_world (medicineName paracetamol) (dosage paracetamol) k
      = Inl server_error"
    by (simp add: offline_world_def)
  have i: "verifyMedication offline_world paracetamol = Inl server_error"
    using withRetry_policy [of ?g offline_world paracetamol "''hi''" "''English''" "''Hindi''"]
    by (auto simp: not_quota_server_error ow)
  have bw: "\<And>k. gen_refine busy_world ''hi'' ''English'' k = Inl rate_limited"
    by (simp add: busy_world_def)
  let ?r = "refine_attempt busy_world ''hi'' ''English''"
  have ra: "\<And>k. ?r k = Inl rate_limited"
    using withRetry_policy [of ?r busy_world paracetamol "''hi''" "''English''" "''Hindi''"]
    by (simp add: bw)
  have j: "refineToMedicalEnglish busy_world ''hi'' ''English'' = Inl QuotaError"
    using withRetry_policy [of ?r busy_world paracetamol "''hi''" "''English''" "''Hindi''"]
    by (auto simp: ra hi is_quota_rate_limited)
  have qw: "\<And>k. gen_soap quiet_world ''hi'' k = Inl server_error"
    by (simp add: quiet_world_def)
  have k: "processConsultation quiet_world ''hi'' = Inl server_error"
    using withRetry_policy [of ?g quiet_world paracetamol "''hi''" "''English''" "''Hindi''"]
    by (auto simp: not_quota_server_error qw hi)
  show ?thesis using a b c d e f g h i j k by blast
qed

section \<open>The audio codec\<close>

lemma b64_index_all: "list_all (\<lambda>i. b64_index (b64_char i) = Some i) [0..<64]"
  by code_simp

lemma b64_index_char: "i < 64 \<Longrightarrow> b64_index (b64_char i) = Some i"
  using b64_index_all by (simp add: list_all_iff)

lemma b64_char_all:
  "list_all (\<lambda>i. b64_char i \<noteq> CHR ''='' \<and> \<not> ascii_whitespace (b64_char i)) [0..<64]"
  by code_simp

lemma b64_char_not_pad: "i < 64 \<Longrightarrow> b64_char i \<noteq> CHR ''=''"
  using b64_char_all by (simp add: list_all_iff)

lemma b64_char_not_ws: "i < 64 \<Longrightarrow> \<not> ascii_whitespace (b64_char i)"
  using b64_char_all by (simp add: list_all_iff)

lemma of_char_lt: "(of_char c :: nat) < 256"
  by (metis of_char_mod_256 mod_less_divisor zero_less_numeral)

lemma sextet_bounds:
  fixes x y z :: nat
  assumes "x < 256" "y < 256" "z < 256"
  shows "x div 4 < 64" "(x mod 4) * 16 < 64" "(x mod 4) * 16 + y div 16 < 64"
    "(y mod 16) * 4 < 64" "(y mod 16) * 4 + z div 64 < 64" "z mod 64 < 64"
proof -
  have a: "x mod 4 < 4" "y mod 16 < 16" by simp_all
  have b: "y div 16 < 16" "z div 64 < 4" using assms by simp_all
  show "x div 4 < 64" using assms by simp
  show "(x mod 4) * 16 < 64" using a by linarith
  show "(x mod 4) * 16 + y div 16 < 64" using a b by linarith
  show "(y mod 16) * 4 < 64" using a by linarith
  show "(y mod 16) * 4 + z div 64 < 64" using a b by linarith
  show "z mod 64 < 64" by simp
qed

lemma regroup:
  fixes y z :: nat
  assumes "y < 256" "z < 256"
  shows "y div 16 div 16 = 0" "y div 16 mod 16 = y div 16"
    "z div 64 div 4 = 0" "z div 64 mod 4 = z div 64"
    "y div 16 * 16 + y mod 16 = y" "z div 64 * 64 + z mod 64 = z"
  using assms by (simp_all add: div_mult2_eq [symmetric])

lemma from_sextets_1:
  fixes x :: nat
  shows "from_sextets [x div 4, (x mod 4) * 16] = [char_of x]"
  by simp

lemma from_sextets_2:
  fixes x y :: nat
  assumes "y < 256"
  shows "from_sextets [x div 4, (x mod 4) * 16 + y div 16, (y mod 16) * 4]
           = [char_of x, char_of y]"
  using regroup [OF assms assms] by simp

lemma from_sextets_3:
  fixes x y z :: nat
  assumes "y < 256" "z < 256"
  shows "from_sextets ([x div 4, (x mod 4) * 16 + y div 16, (y mod 16) * 4 + z div 64, z mod 64] @ rest)
           = [char_of x, char_of y, char_of z] @ from_sextets rest"
  using regroup [OF assms] by simp

lemma body_roundtrip: "map_option from_sextets (sextets (btoa_body t)) = Some t"
proof (induction t rule: btoa_body.induct)
  case 1
  show ?case by simp
next
  case (2 a)
  have x: "(of_char a :: nat) < 256" by (rule of_char_lt)
  show ?case
    using sextet_bounds(1,2) [OF x x x] from_sextets_1 [of "of_char a"]
    by (simp add: b64_index_char Let_def del: from_sextets.simps)
next
  case (3 a b)
  have x: "(of_char a :: nat) < 256" and y: "(of_char b :: nat) < 256"
    by (rule of_char_lt)+
  show ?case
    using sextet_bounds [OF x y y] from_sextets_2 [OF y, of "of_char a"]
    by (simp add: b64_index_char Let_def del: from_sextets.simps)
next
  case (4 a b c rest)
  have x: "(of_char a :: nat) < 256" and y: "(of_char b :: nat) < 256"
    and z: "(of_char c :: nat) < 256" by (rule of_char_lt)+
  obtain js where js: "sextets (btoa_body rest) = Some js" "from_sextets js = rest"
    using 4 [OF refl refl refl] by auto
  show ?case
    using sextet_bounds [OF x y z] js from_sextets_3 [OF y z, of "of_char a" js]
    by (simp add: b64_index_char Let_def del: from_sextets.simps)
qed

lemma in_alphabetI: "i < 64 \<Longrightarrow> in_alphabet (b64_char i)"
  by (auto simp: in_alphabet_def)

lemma body_alphabet: "\<forall>c \<in> set (btoa_body t). in_alphabet c"
proof (induction t rule: btoa_body.induct)
  case 1
  show ?case by simp
next
  case (2 a)
  have x: "(of_char a :: nat) < 256" by (rule of_char_lt)
  show ?case using sextet_bounds(1,2) [OF x x x] by (simp add: Let_def in_alphabetI)
next
  case (3 a b)
  have x: "(of_char a :: nat) < 256" and y: "(of_char b :: nat) < 256"
    by (rule of_char_lt)+
  show ?case using sextet_bounds [OF x y y] by (simp add: Let_def in_alphabetI)
next
  case (4 a b c rest)
  have x: "(of_char a :: nat) < 256" and y: "(of_char b :: nat) < 256"
    and z: "(of_char c :: nat) < 256" by (rule of_char_lt)+
  show ?case
    using sextet_bounds [OF x y z] 4 [OF refl refl refl] by (simp add: Let_def in_alphabetI)
qed

lemma btoa_split: "btoa t = btoa_body t @ padding t"
  by (induction t rule: btoa.induct) (simp_all add: Let_def)

lemma padding_cases: "padding t = [] \<or> padding t = ''='' \<or> padding t = ''==''"
  by (induction t rule: padding.induct) simp_all

lemma padding_no_space: "filter (\<lambda>c. \<not> ascii_whitespace c) (padding t) = padding t"
  using padding_cases [of t] by (auto simp: ascii_whitespace_def)

lemma body_no_space: "filter (\<lambda>c. \<not> ascii_whitespace c) (btoa_body t) = btoa_body t"
  using body_alphabet [of t] by (auto simp: filter_id_conv in_alphabet_def b64_char_not_ws)

lemma btoa_length: "length (btoa t) mod 4 = 0"
  by (induction t rule: btoa.induct) (simp_all add: Let_def)

lemma body_length: "length (btoa_body t) mod 4 \<noteq> 1"
  by (induction t rule: btoa_body.induct) (simp_all add: Let_def)

lemma last_body:
  assumes "btoa_body t \<noteq> []"
  shows "last (btoa_body t) \<noteq> CHR ''=''"
proof -
  have "in_alphabet (last (btoa_body t))"
    using body_alphabet [of t] last_in_set [OF assms] by blast
  then obtain i where "i < 64" "last (btoa_body t) = b64_char i"
    by (auto simp: in_alphabet_def)
  then show ?thesis
    using b64_char_not_pad [of i] by simp
qed

lemma strip_padding_body:
  assumes "length (body @ pad) mod 4 = 0"
    and "body \<noteq> [] \<Longrightarrow> last body \<noteq> CHR ''=''"
    and "pad = [] \<or> pad = ''='' \<or> pad = ''==''"
  shows "strip_padding (body @ pad) = body"
proof (cases body rule: rev_cases)
  case Nil
  with assms show ?thesis by (auto simp: strip_padding_def)
next
  case (snoc ys y)
  with assms have "y \<noteq> CHR ''=''" by simp
  with snoc assms show ?thesis
    by (cases ys rule: rev_cases) (auto simp: strip_padding_def)
qed

lemma atob_btoa: "atob (btoa t) = Some t"
proof -
  have "filter (\<lambda>c. \<not> ascii_whitespace c) (btoa t) = btoa t"
    by (simp add: btoa_split body_no_space padding_no_space)
  moreover have "strip_padding (btoa t) = btoa_body t"
    unfolding btoa_split
    by (rule strip_padding_body)
      (use btoa_length [of t] last_body [of t] padding_cases [of t] in \<open>simp_all add: btoa_split\<close>)
  ultimately show ?thesis
    using body_length [of t] body_roundtrip [of t] by (simp add: atob_def)
qed

lemma byte_of_code_unit: "word_of_nat (unat (b :: byte) mod 256) = b"
proof -
  have "unat b < 256" using unsigned_less [of b] by simp
  then show ?thesis by simp
qed

text \<open>
  C10. For every byte array \<open>b\<close>, \<open>decode (encode b)\<close> returns \<open>b\<close>: \<open>decode\<close>
  does not throw on the output of \<open>encode\<close>, and gives back the same bytes.
\<close>

theorem decode_encode: "decode (encode bytes) = Inr bytes"
  by (simp add: decode_def encode_def atob_btoa comp_def byte_of_code_unit map_idI)

theorem decode_encode_witness:
  "decode (encode [1, 2, 3, 255, 0]) = Inr [1, 2, 3, 255, 0]"
  by (rule decode_encode)

section \<open>Replies that arrive during a wait\<close>

lemma resume_shape:
  "handleTranslationPhase_resume E tk s
     = s\<lparr>messages := messages s @ resume_messages E tk, isTranslating := False,
         effects := effects s @ resume_effects E tk, inflight := remove1 tk (inflight s)\<rparr>"
  by (cases tk)
    (auto simp: handleTranslationPhase_resume_def resume_messages_def resume_effects_def
      Let_def emit_def split: sum.splits)

lemma resume_effects_background: "list_all background (resume_effects E tk)"
  by (cases tk) (auto simp: resume_effects_def split: sum.splits)

lemma settle_Nil: "settle E [] s = s"
  by (simp add: settle_def)

lemma settle_Cons:
  "settle E (tk # tks) s
     = settle E tks (if tk \<in> set (inflight s) then handleTranslationPhase_resume E tk s else s)"
  by (simp add: settle_def)

lemma settle_shape:
  "\<exists>I M F B. list_all background F
     \<and> settle E tks s = s\<lparr>messages := messages s @ M, isTranslating := B,
                            effects := effects s @ F, inflight := I\<rparr>
     \<and> (tks = [] \<longrightarrow> F = [])"
proof (induction tks arbitrary: s)
  case Nil
  have "settle E [] s = s\<lparr>messages := messages s @ [], isTranslating := isTranslating s,
                            effects := effects s @ [], inflight := inflight s\<rparr>"
    by (simp add: settle_Nil)
  moreover have "list_all background []" by simp
  ultimately show ?case by blast
next
  case (Cons tk tks)
  let ?step = "if tk \<in> set (inflight s) then handleTranslationPhase_resume E tk s else s"
  have "\<exists>F0 M0 B0 I0. list_all background F0
      \<and> ?step = s\<lparr>messages := messages s @ M0, isTranslating := B0,
                     effects := effects s @ F0, inflight := I0\<rparr>"
  proof (cases "tk \<in> set (inflight s)")
    case True
    have "?step = s\<lparr>messages := messages s @ resume_messages E tk, isTranslating := False,
                     effects := effects s @ resume_effects E tk,
                     inflight := remove1 tk (inflight s)\<rparr>"
      using True by (simp add: resume_shape)
    then show ?thesis
      using resume_effects_background [of E tk] by blast
  next
    case False
    have "?step = s\<lparr>messages := messages s @ [], isTranslating := isTranslating s,
                     effects := effects s @ [], inflight := inflight s\<rparr>"
      using False by simp
    moreover have "list_all background []" by simp
    ultimately show ?thesis by blast
  qed
  then obtain F0 M0 B0 I0 where step: "list_all background F0"
    "?step = s\<lparr>messages := messages s @ M0, isTranslating := B0,
                 effects := effects s @ F0, inflight := I0\<rparr>"
    by blast
  obtain F M B I where rest: "list_all background F"
    "settle E tks ?step = ?step\<lparr>messages := messages ?step @ M, isTranslating := B,
                                   effects := effects ?step @ F, inflight := I\<rparr>"
    using Cons [of ?step] by blast
  have "settle E (tk # tks) s
          = s\<lparr>messages := messages s @ (M0 @ M), isTranslating := B,
               effects := effects s @ (F0 @ F), inflight := I\<rparr>"
    unfolding settle_Cons rest(2) by (subst (1 2 3) step(2)) simp
  moreover have "list_all background (F0 @ F)"
    using step(1) rest(1) by simp
  ultimately show ?case by blast
qed

lemma settle_keeps:
  "capturedTextRef (settle E tks s) = capturedTextRef s"
  "currentInput (settle E tks s) = currentInput s"
  "scribeBlocks (settle E tks s) = scribeBlocks s"
  "error (settle E tks s) = error s"
  "isLive (settle E tks s) = isLive s"
  "currentRoleRef (settle E tks s) = currentRoleRef s"
  "streamRef (settle E tks s) = streamRef s"
  "sessionRef (settle E tks s) = sessionRef s"
  "audioContextRef (settle E tks s) = audioContextRef s"
  "prefix (messages s) (messages (settle E tks s))"
proof -
  obtain I M F B where "settle E tks s = s\<lparr>messages := messages s @ M, isTranslating := B,
                            effects := effects s @ F, inflight := I\<rparr>"
    using settle_shape [of E tks s] by blast
  then show "capturedTextRef (settle E tks s) = capturedTextRef s"
    "currentInput (settle E tks s) = currentInput s"
    "scribeBlocks (settle E tks s) = scribeBlocks s"
    "error (settle E tks s) = error s"
    "isLive (settle E tks s) = isLive s"
    "currentRoleRef (settle E tks s) = currentRoleRef s"
    "streamRef (settle E tks s) = streamRef s"
    "sessionRef (settle E tks s) = sessionRef s"
    "audioContextRef (settle E tks s) = audioContextRef s"
    "prefix (messages s) (messages (settle E tks s))"
    by simp_all
qed

lemma startCapture_clears:
  "capturedTextRef (startCapture E r lang s) = [] \<and> currentInput (startCapture E r lang s) = []"
  by (simp add: startCapture_def start_error_def emit_def Let_def settle_keeps)

section \<open>Transcript fragments\<close>

lemma captured_fragments:
  "capturedTextRef (fragments fs s) = foldl accumulate (capturedTextRef s) fs"
  unfolding fragments_def
  by (induction fs arbitrary: s) (simp_all add: onInputTranscript_def accumulate_def)

lemma input_fragments:
  "currentInput (fragments fs s) = foldl accumulate (currentInput s) fs"
  unfolding fragments_def
  by (induction fs arbitrary: s) (simp_all add: onInputTranscript_def accumulate_def)

lemma join_Cons: "join sep (x # xs) = x @ concat (map (\<lambda>f. sep @ f) xs)"
  by (induction xs arbitrary: x) simp_all

lemma accumulate_nonempty:
  "b \<noteq> [] \<Longrightarrow> foldl accumulate b fs = b @ concat (map (\<lambda>f. '' '' @ f) fs)"
  by (induction fs arbitrary: b) (simp_all add: accumulate_def)

lemma accumulate_empty:
  "foldl accumulate [] fs = join '' '' (dropWhile (\<lambda>f. f = []) fs)"
proof (induction fs)
  case Nil
  show ?case by simp
next
  case (Cons f fs)
  show ?case
  proof (cases "f = []")
    case True
    with Cons show ?thesis by (simp add: accumulate_def)
  next
    case False
    then have "foldl accumulate [] (f # fs) = f @ concat (map (\<lambda>g. '' '' @ g) fs)"
      using accumulate_nonempty [of f fs] by (simp add: accumulate_def)
    with False show ?thesis by (simp add: join_Cons)
  qed
qed

lemma toggleMic_new_capture:
  assumes "isLive s \<noteq> Some r" "toggleMic E r s = (None, s')"
  shows "\<exists>s1 lang. s' = startCapture E r lang s1"
  using assms by (auto simp: toggleMic_def split: if_splits prod.splits option.splits)

text \<open>
  C9, as the code has it. When \<open>toggleMic\<close> starts a capture, the buffer and the live
  display text are both empty; from then on every fragment is appended to both, in
  arrival order, with one space before it unless the accumulation is still empty. So
  after the fragments \<open>fs\<close> both hold the space-join of \<open>fs\<close> without its leading empty
  fragments, which is the space-join of \<open>fs\<close> whenever the first fragment is not empty.
\<close>

theorem fragments_space_joined:
  assumes "isLive s \<noteq> Some r" and "toggleMic E r s = (None, s')"
  shows "capturedTextRef s' = [] \<and> currentInput s' = []
    \<and> capturedTextRef (fragments fs s') = join '' '' (dropWhile (\<lambda>f. f = []) fs)
    \<and> currentInput (fragments fs s') = join '' '' (dropWhile (\<lambda>f. f = []) fs)
    \<and> (fs = [] \<or> hd fs \<noteq> [] \<longrightarrow>
         capturedTextRef (fragments fs s') = join '' '' fs
         \<and> currentInput (fragments fs s') = join '' '' fs)"
proof -
  obtain s1 lang where "s' = startCapture E r lang s1"
    using toggleMic_new_capture [OF assms] by blast
  then have e: "capturedTextRef s' = []" "currentInput s' = []"
    by (simp_all add: startCapture_clears)
  have "fs = [] \<or> hd fs \<noteq> [] \<Longrightarrow> dropWhile (\<lambda>f. f = []) fs = fs"
    by (cases fs) auto
  then show ?thesis
    by (auto simp: e captured_fragments input_fragments accumulate_empty)
qed

lemma toggleMic_quiet_initial:
  "toggleMic quiet_world Scribe initial
     = (None, startCapture quiet_world Scribe ''English'' initial)"
  by (simp add: toggleMic_def initial_def)

theorem fragments_space_joined_witness:
  "capturedTextRef (fragments [''patient'', ''has'', ''fever'']
       (startCapture quiet_world Scribe ''English'' initial)) = ''patient has fever''
   \<and> currentInput (fragments [''patient'', ''has'', ''fever'']
       (startCapture quiet_world Scribe ''English'' initial)) = ''patient has fever''"
  using fragments_space_joined [of initial Scribe quiet_world
      "startCapture quiet_world Scribe ''English'' initial" "[''patient'', ''has'', ''fever'']"]
    toggleMic_quiet_initial
  by (simp add: initial_def)

text \<open>
  The claim as it is written fails when an empty fragment arrives first: after the
  fragments \<open>''''\<close> and \<open>''a''\<close> both accumulations are \<open>''a''\<close>, without the
  separating space.
\<close>

theorem fragments_join_counterexample:
  "capturedTextRef (fragments ['''', ''a''] (snd (toggleMic quiet_world Scribe initial)))
     \<noteq> '''' @ '' '' @ ''a''
   \<and> currentInput (fragments ['''', ''a''] (snd (toggleMic quiet_world Scribe initial)))
     \<noteq> '''' @ '' '' @ ''a''"
  by (simp add: toggleMic_quiet_initial captured_fragments input_fragments accumulate_def
      startCapture_clears)

section \<open>Stopping a capture\<close>

lemma cleanupSession_ok:
  assumes "channel_ok s"
  shows "cleanupSession E s
    = (None, s\<lparr>streamRef := None, sessionRef := None, audioContextRef := None,
               effects := effects s @ release_effects E s\<rparr>)"
proof (cases "sessionRef s")
  case None
  then show ?thesis
    by (cases "streamRef s"; cases "audioContextRef s")
      (simp_all add: cleanupSession_def release_effects_def emit_def)
next
  case (Some p)
  then obtain r where p: "p = SessionPromise r True"
    using assms by (cases p) (auto simp: channel_ok_def)
  show ?thesis
    unfolding Some p
    by (cases "streamRef s"; cases "audioContextRef s")
      (simp_all add: cleanupSession_def release_effects_def emit_def Some p)
qed

lemma fragments_fields:
  "fragments fs s = s\<lparr>capturedTextRef := foldl accumulate (capturedTextRef s) fs,
                        currentInput := foldl accumulate (currentInput s) fs\<rparr>"
  unfolding fragments_def
  by (induction fs arbitrary: s) (simp_all add: onInputTranscript_def accumulate_def)

lemma deliver_fields:
  "deliver fs s = s\<lparr>capturedTextRef := capturedTextRef (deliver fs s),
                      currentInput := currentInput (deliver fs s)\<rparr>"
  by (cases "sessionRef s") (simp_all add: deliver_def fragments_fields)

lemma deliver_captured:
  "capturedTextRef (deliver fs s)
     = (if connected s then foldl accumulate (capturedTextRef s) fs else capturedTextRef s)"
  by (cases "sessionRef s") (simp_all add: deliver_def connected_def fragments_fields)

lemma stopLiveSession_ok:
  assumes "channel_ok s"
  shows "stopLiveSession E s = (None, post_process E s (torn_down E s))"
proof -
  let ?s1 = "emit [Sleep 400] (s\<lparr>isFinalizing := True\<rparr>)"
  let ?s2 = "deliver (late E) ?s1"
  have c: "capturedTextRef ?s2 = capturedTextRef (deliver (late E) s)"
    by (simp add: deliver_captured connected_def emit_def)
  have ok: "channel_ok ?s2"
    using assms by (subst deliver_fields) (simp add: channel_ok_def emit_def)
  have s2: "?s2 = ?s1\<lparr>capturedTextRef := capturedTextRef ?s2, currentInput := currentInput ?s2\<rparr>"
    by (rule deliver_fields)
  have rel: "release_effects E ?s2 = release_effects E s"
    by (subst s2) (simp add: release_effects_def emit_def)
  have "cleanupSession E ?s2
    = (None, ?s2\<lparr>streamRef := None, sessionRef := None, audioContextRef := None,
               effects := effects ?s2 @ release_effects E s\<rparr>)"
    using cleanupSession_ok [OF ok, of E] by (simp only: rel)
  moreover have "(?s2\<lparr>streamRef := None, sessionRef := None, audioContextRef := None,
               effects := effects ?s2 @ release_effects E s\<rparr>)
          \<lparr>isLive := None, currentRoleRef := None, capturedTextRef := [],
           isFinalizing := False, currentInput := []\<rparr> = torn_down E s"
    by (subst (1 2) s2) (simp add: torn_down_def emit_def)
  ultimately show ?thesis
    by (auto simp: stopLiveSession_def Let_def post_process_def finalCaptured_def c)
qed

lemma post_process_fields:
  assumes "docLang d = docLang s" "patLang d = patLang s"
  shows "isLive (post_process E s d) = isLive d"
    "currentRoleRef (post_process E s d) = currentRoleRef d"
    "streamRef (post_process E s d) = streamRef d"
    "sessionRef (post_process E s d) = sessionRef d"
    "audioContextRef (post_process E s d) = audioContextRef d"
    "capturedTextRef (post_process E s d) = capturedTextRef d"
    "currentInput (post_process E s d) = currentInput d"
    "isFinalizing (post_process E s d) = isFinalizing d"
    "error (post_process E s d) = error d"
    "effects (post_process E s d) = effects d @ post_effects E s"
  using assms
  by (auto simp: post_process_def post_effects_def handleTranslationPhase_begin_def
      translation_task_def refinePhase_def appendScribe_def attachRefined_def emit_def Let_def
      split: sum.splits)

lemma torn_down_fields:
  "isLive (torn_down E s) = None" "currentRoleRef (torn_down E s) = None"
  "streamRef (torn_down E s) = None" "sessionRef (torn_down E s) = None"
  "audioContextRef (torn_down E s) = None" "capturedTextRef (torn_down E s) = []"
  "currentInput (torn_down E s) = []" "isFinalizing (torn_down E s) = False"
  "effects (torn_down E s) = effects s @ [Sleep 400] @ release_effects E s"
  "docLang (torn_down E s) = docLang s" "patLang (torn_down E s) = patLang s"
  "error (torn_down E s) = error s" "scribeBlocks (torn_down E s) = scribeBlocks s"
  "messages (torn_down E s) = messages s" "inflight (torn_down E s) = inflight s"
  "draft (torn_down E s) = draft s" "patientDetails (torn_down E s) = patientDetails s"
  "mode (torn_down E s) = mode s" "step (torn_down E s) = step s"
  by (simp_all add: torn_down_def)

text \<open>
  When the channel promise rejects, \<open>stopLiveSession\<close> rejects inside
  \<open>cleanupSession\<close>: the stream has been released, and the role stays live.
\<close>

lemma stopLiveSession_rejects:
  assumes "sessionRef s = Some (SessionPromise r False)"
  shows "fst (stopLiveSession E s) = Some ConnectError"
    and "isLive (snd (stopLiveSession E s)) = isLive s"
    and "streamRef (snd (stopLiveSession E s)) = None"
    and "sessionRef (snd (stopLiveSession E s)) = sessionRef s"
proof -
  let ?s2 = "deliver (late E) (emit [Sleep 400] (s\<lparr>isFinalizing := True\<rparr>))"
  have s2: "?s2 = emit [Sleep 400] (s\<lparr>isFinalizing := True\<rparr>)"
    using assms by (simp add: deliver_def emit_def)
  have c: "cleanupSession E ?s2
    = (Some ConnectError,
       if streamRef s \<noteq> None
       then emit [StreamReleased] ((emit [Sleep 400] (s\<lparr>isFinalizing := True\<rparr>))\<lparr>streamRef := None\<rparr>)
       else emit [Sleep 400] (s\<lparr>isFinalizing := True\<rparr>))"
    unfolding s2 using assms by (simp add: cleanupSession_def emit_def Let_def)
  have "stopLiveSession E s
    = (Some ConnectError,
       if streamRef s \<noteq> None
       then emit [StreamReleased] ((emit [Sleep 400] (s\<lparr>isFinalizing := True\<rparr>))\<lparr>streamRef := None\<rparr>)
       else emit [Sleep 400] (s\<lparr>isFinalizing := True\<rparr>))"
    by (simp add: stopLiveSession_def Let_def c)
  then show "fst (stopLiveSession E s) = Some ConnectError"
    and "isLive (snd (stopLiveSession E s)) = isLive s"
    and "streamRef (snd (stopLiveSession E s)) = None"
    and "sessionRef (snd (stopLiveSession E s)) = sessionRef s"
    by (simp_all add: emit_def)
qed

text \<open>
  On a state whose channel promise (if any) resolves, \<open>stopLiveSession\<close> returns
  normally and: its first effect is the 400 ms wait; the final text is the trimmed buffer
  as it stands after that wait, the fragments that arrived during it included; then the
  stream is released, the channel closed (whether or not \<open>close\<close> throws: the flag
  \<open>closeThrows\<close> is arbitrary) and the audio context closed, before any
  post-processing call; at the end no stream, channel or context is held, \<open>isLive\<close>
  and the role are cleared, the buffer and the live text are empty and
  \<open>isFinalizing\<close> is off.
\<close>

lemma stopLiveSession_idle:
  assumes "channel_ok s"
  shows "\<exists>s'. stopLiveSession E s = (None, s')
    \<and> effects s' = effects s @ [Sleep 400] @ release_effects E s @ post_effects E s
    \<and> finalCaptured E s
        = trim (if connected s then foldl accumulate (capturedTextRef s) (late E)
                else capturedTextRef s)
    \<and> streamRef s' = None \<and> sessionRef s' = None \<and> audioContextRef s' = None
    \<and> isLive s' = None \<and> currentRoleRef s' = None \<and> capturedTextRef s' = []
    \<and> currentInput s' = [] \<and> isFinalizing s' = False"
  using stopLiveSession_ok [OF assms, of E]
  by (simp add: post_process_fields torn_down_fields finalCaptured_def deliver_captured)

lemma refine_late_world:
  "trim txt \<noteq> [] \<Longrightarrow> refineToMedicalEnglish late_world txt lang = Inr ''Patient reports fever.''"
  by (simp add: refineToMedicalEnglish_def late_world_def quiet_world_def withRetry_success
      trim_def is_space_def)

lemma scribe_speaking_eq:
  "scribe_speaking = (startCapture quiet_world Scribe ''English'' initial)
     \<lparr>capturedTextRef := ''patient has'', currentInput := ''patient has''\<rparr>"
  by (simp add: scribe_speaking_def fragments_fields startCapture_def settle_def Let_def quiet_world_def
      emit_def initial_def accumulate_def)

lemma stopLiveSession_idle_example:
  "fst (stopLiveSession late_world scribe_speaking) = None
   \<and> effects (snd (stopLiveSession late_world scribe_speaking))
       = [StreamAcquired, ChannelOpened Scribe ''English'', Sleep 400, StreamReleased,
          ChannelClosed Scribe True, ContextClosed,
          RefineRequest ''patient has fever'' ''English'']
   \<and> isLive (snd (stopLiveSession late_world scribe_speaking)) = None"
proof -
  have ok: "channel_ok scribe_speaking"
    by (simp add: scribe_speaking_eq channel_ok_def startCapture_def settle_def Let_def quiet_world_def emit_def)
  have fin: "finalCaptured late_world scribe_speaking = ''patient has fever''"
    by (simp add: finalCaptured_def deliver_captured connected_def scribe_speaking_eq
        startCapture_def settle_def Let_def quiet_world_def late_world_def emit_def accumulate_def
        trim_def is_space_def)
  have rel: "release_effects late_world scribe_speaking
               = [StreamReleased, ChannelClosed Scribe True, ContextClosed]"
    by (simp add: release_effects_def scribe_speaking_eq startCapture_def settle_def Let_def
        quiet_world_def late_world_def emit_def)
  have post: "post_effects late_world scribe_speaking = [RefineRequest ''patient has fever'' ''English'']"
  proof -
    have "mode scribe_speaking = UNILINGUAL" "docLang scribe_speaking = ''English''"
      by (simp_all add: scribe_speaking_eq startCapture_def settle_def Let_def quiet_world_def emit_def
          initial_def)
    moreover have "refineToMedicalEnglish late_world ''patient has fever'' ''English''
        = Inr ''Patient reports fever.''"
      by (rule refine_late_world) (simp add: trim_def is_space_def)
    ultimately show ?thesis
      by (simp add: post_effects_def fin)
  qed
  have eff: "effects scribe_speaking = [StreamAcquired, ChannelOpened Scribe ''English'']"
    by (simp add: scribe_speaking_eq startCapture_def settle_def Let_def quiet_world_def emit_def initial_def)
  show ?thesis
    using stopLiveSession_idle [OF ok, of late_world]
    by (auto simp: rel post eff)
qed

lemma trim_examples:
  "trim [CHR 0x20, CHR 0x09, CHR ''h'', CHR ''i'', CHR 0x20, CHR ''y'', CHR 0x0A, CHR 0x0D] = ''hi y''"
  "trim [CHR 0x20, CHR 0x0A, CHR 0xA0] = []"
  "trim ''fever'' = ''fever''"
  by (simp_all add: trim_def is_space_def)

lemma finalCaptured_padded:
  "finalCaptured padded_world scribe_speaking = ''patient has  fever''"
  "capturedTextRef scribe_speaking = ''patient has''"
  by (simp_all add: finalCaptured_def deliver_captured connected_def scribe_speaking_eq
      startCapture_def settle_def Let_def quiet_world_def padded_world_def emit_def
      accumulate_def trim_def is_space_def)

lemma stopLiveSession_rejects_fields:
  assumes "sessionRef s = Some (SessionPromise r False)"
  shows "fst (stopLiveSession E s) = Some ConnectError"
    and "effects (snd (stopLiveSession E s))
           = effects s @ [Sleep 400] @ (if streamRef s \<noteq> None then [StreamReleased] else [])"
    and "isLive (snd (stopLiveSession E s)) = isLive s"
    and "currentRoleRef (snd (stopLiveSession E s)) = currentRoleRef s"
    and "isFinalizing (snd (stopLiveSession E s)) = True"
    and "streamRef (snd (stopLiveSession E s)) = None"
    and "sessionRef (snd (stopLiveSession E s)) = sessionRef s"
    and "audioContextRef (snd (stopLiveSession E s)) = audioContextRef s"
    and "scribeBlocks (snd (stopLiveSession E s)) = scribeBlocks s"
    and "messages (snd (stopLiveSession E s)) = messages s"
    and "error (snd (stopLiveSession E s)) = error s"
    and "status (snd (stopLiveSession E s)) = status s"
    and "draft (snd (stopLiveSession E s)) = draft s"
    and "step (snd (stopLiveSession E s)) = step s"
proof -
  let ?s1 = "emit [Sleep 400] (s\<lparr>isFinalizing := True\<rparr>)"
  let ?s2 = "deliver (late E) ?s1"
  have s2: "?s2 = ?s1"
    using assms by (simp add: deliver_def emit_def)
  have c: "cleanupSession E ?s2
    = (Some ConnectError,
       if streamRef s \<noteq> None then emit [StreamReleased] (?s1\<lparr>streamRef := None\<rparr>) else ?s1)"
    unfolding s2 using assms by (simp add: cleanupSession_def emit_def Let_def)
  have "stopLiveSession E s
    = (Some ConnectError,
       if streamRef s \<noteq> None then emit [StreamReleased] (?s1\<lparr>streamRef := None\<rparr>) else ?s1)"
    by (simp add: stopLiveSession_def Let_def c)
  then show "fst (stopLiveSession E s) = Some ConnectError"
    and "effects (snd (stopLiveSession E s))
           = effects s @ [Sleep 400] @ (if streamRef s \<noteq> None then [StreamReleased] else [])"
    and "isLive (snd (stopLiveSession E s)) = isLive s"
    and "currentRoleRef (snd (stopLiveSession E s)) = currentRoleRef s"
    and "isFinalizing (snd (stopLiveSession E s)) = True"
    and "streamRef (snd (stopLiveSession E s)) = None"
    and "sessionRef (snd (stopLiveSession E s)) = sessionRef s"
    and "audioContextRef (snd (stopLiveSession E s)) = audioContextRef s"
    and "scribeBlocks (snd (stopLiveSession E s)) = scribeBlocks s"
    and "messages (snd (stopLiveSession E s)) = messages s"
    and "error (snd (stopLiveSession E s)) = error s"
    and "status (snd (stopLiveSession E s)) = status s"
    and "draft (snd (stopLiveSession E s)) = draft s"
    and "step (snd (stopLiveSession E s)) = step s"
    by (simp_all add: emit_def)
qed

lemma resetAllState_rejects:
  assumes "sessionRef s = Some (SessionPromise r False)"
  shows "fst (resetAllState E s) = Some ConnectError"
    "isLive (snd (resetAllState E s)) = isLive s"
    "scribeBlocks (snd (resetAllState E s)) = scribeBlocks s"
  using assms by (simp_all add: resetAllState_def cleanupSession_def emit_def Let_def)

lemma stuck_capture_facts:
  "toggleMic dead_world Scribe noted = (None, stuck_capture)"
  "isLive stuck_capture = Some Scribe" "currentRoleRef stuck_capture = Some Scribe"
  "error stuck_capture = None" "isFinalizing stuck_capture = False"
  "streamRef stuck_capture = Some MediaStream"
  "sessionRef stuck_capture = Some (SessionPromise Scribe False)"
  "audioContextRef stuck_capture = Some AudioContext"
  "effects stuck_capture = [StreamAcquired, ChannelOpened Scribe ''English'']"
  "scribeBlocks stuck_capture = scribeBlocks noted"
  "status stuck_capture = IDLE" "draft stuck_capture = None" "step stuck_capture = CAPTURE"
  "mode stuck_capture = UNILINGUAL"
  by (simp_all add: stuck_capture_def toggleMic_def noted_def initial_def startCapture_def
      settle_def Let_def dead_world_def quiet_world_def emit_def)

text \<open>
  C6. The capture \<open>stuck_capture\<close> is what \<open>toggleMic\<close> starts for the Scribe, with no
  error shown, when the live connection is refused: the role is live and the stored
  channel promise rejects. There \<open>stopLiveSession\<close> does not return normally. It waits
  400 ms and releases the stream; then \<^verbatim>\<open>await sessionRef.current\<close>, which stands
  outside the \<^verbatim>\<open>try\<close> of \<open>cleanupSession\<close>, rejects, and nothing after it runs:
  the channel promise and the audio context are still held, the role is still live,
  \<open>isFinalizing\<close> stays on, and no error is shown. A second \<open>stopLiveSession\<close>
  rejects in the same way, and so does \<open>resetAllState\<close>: the session does not come back
  to idle.
\<close>

theorem stopLiveSession_stuck:
  "toggleMic dead_world Scribe noted = (None, stuck_capture)
   \<and> isLive stuck_capture = Some Scribe \<and> error stuck_capture = None
   \<and> sessionRef stuck_capture = Some (SessionPromise Scribe False)
   \<and> fst (stopLiveSession dead_world stuck_capture) = Some ConnectError
   \<and> effects (snd (stopLiveSession dead_world stuck_capture))
       = effects stuck_capture @ [Sleep 400, StreamReleased]
   \<and> isLive (snd (stopLiveSession dead_world stuck_capture)) = Some Scribe
   \<and> currentRoleRef (snd (stopLiveSession dead_world stuck_capture)) = Some Scribe
   \<and> isFinalizing (snd (stopLiveSession dead_world stuck_capture)) = True
   \<and> streamRef (snd (stopLiveSession dead_world stuck_capture)) = None
   \<and> sessionRef (snd (stopLiveSession dead_world stuck_capture))
       = Some (SessionPromise Scribe False)
   \<and> audioContextRef (snd (stopLiveSession dead_world stuck_capture)) = Some AudioContext
   \<and> error (snd (stopLiveSession dead_world stuck_capture)) = None
   \<and> idle (snd (stopLiveSession dead_world stuck_capture)) = False
   \<and> fst (stopLiveSession dead_world (snd (stopLiveSession dead_world stuck_capture)))
       = Some ConnectError
   \<and> isLive (snd (stopLiveSession dead_world (snd (stopLiveSession dead_world stuck_capture))))
       = Some Scribe
   \<and> fst (resetAllState dead_world (snd (stopLiveSession dead_world stuck_capture)))
       = Some ConnectError
   \<and> isLive (snd (resetAllState dead_world (snd (stopLiveSession dead_world stuck_capture))))
       = Some Scribe"
proof -
  note f = stuck_capture_facts
  note r = stopLiveSession_rejects_fields [OF f(7), of dead_world]
  have s: "sessionRef (snd (stopLiveSession dead_world stuck_capture))
      = Some (SessionPromise Scribe False)"
    by (simp add: r(7) f(7))
  note r2 = stopLiveSession_rejects_fields [OF s, of dead_world]
  note r3 = resetAllState_rejects [OF s, of dead_world]
  have i: "idle (snd (stopLiveSession dead_world stuck_capture)) = False"
    by (simp add: idle_def r(3) f(2))
  show ?thesis
    by (simp add: f r r2(1,3) r3(1,2) i)
qed

lemma stopLiveSession_leaves_idle:
  assumes "channel_ok s"
  shows "idle (snd (stopLiveSession E s))"
  using stopLiveSession_ok [OF assms, of E]
  by (simp add: idle_def post_process_fields torn_down_fields)

lemma idle_initial: "idle initial"
  by (simp add: idle_def initial_def)

lemma idle_stop:
  assumes "idle s"
  shows "stopLiveSession E s
    = (None, s\<lparr>isFinalizing := False, currentInput := [], effects := effects s @ [Sleep 400]\<rparr>)"
proof -
  have ok: "channel_ok s" and fin: "finalCaptured E s = []" and rel: "release_effects E s = []"
    using assms
    by (simp_all add: idle_def channel_ok_def finalCaptured_def deliver_def trim_def
        release_effects_def)
  have "torn_down E s = s\<lparr>isFinalizing := False, currentInput := [], effects := effects s @ [Sleep 400]\<rparr>"
    using assms by (simp add: torn_down_def rel idle_def)
  then show ?thesis
    using stopLiveSession_ok [OF ok, of E] by (simp add: post_process_def fin)
qed

lemma stopLiveSession_blank:
  assumes "channel_ok s" "finalCaptured E s = []"
  shows "scribeBlocks (snd (stopLiveSession E s)) = scribeBlocks s"
    "messages (snd (stopLiveSession E s)) = messages s"
    "inflight (snd (stopLiveSession E s)) = inflight s"
    "effects (snd (stopLiveSession E s)) = effects s @ [Sleep 400] @ release_effects E s"
  using stopLiveSession_ok [OF assms(1), of E] assms(2)
  by (simp_all add: post_process_def torn_down_fields)

text \<open>
  C7. \<open>stopLiveSession\<close> on an idle state (no role live, no handle held, the buffer
  empty) changes nothing but the live text, the finalizing flag and the clock: the scribe
  blocks, the messages and the translations in flight are as before, and no request to
  a service is made (the 400 ms wait is the only effect). The initial state is idle, and
  so is every state \<open>stopLiveSession\<close> returns. More generally, whenever the trimmed
  buffer is empty the log is unchanged and the only effects are the wait and the release
  of what was held.
\<close>

theorem stopLiveSession_noop:
  "(idle s \<longrightarrow>
      stopLiveSession E s
        = (None, s\<lparr>isFinalizing := False, currentInput := [], effects := effects s @ [Sleep 400]\<rparr>)
      \<and> scribeBlocks (snd (stopLiveSession E s)) = scribeBlocks s
      \<and> messages (snd (stopLiveSession E s)) = messages s
      \<and> inflight (snd (stopLiveSession E s)) = inflight s
      \<and> effects (snd (stopLiveSession E s)) = effects s @ [Sleep 400])
   \<and> idle initial
   \<and> (channel_ok s \<longrightarrow> idle (snd (stopLiveSession E s)))
   \<and> (channel_ok s \<and> finalCaptured E s = [] \<longrightarrow>
        scribeBlocks (snd (stopLiveSession E s)) = scribeBlocks s
        \<and> messages (snd (stopLiveSession E s)) = messages s
        \<and> inflight (snd (stopLiveSession E s)) = inflight s
        \<and> effects (snd (stopLiveSession E s)) = effects s @ [Sleep 400] @ release_effects E s)"
  by (simp add: idle_stop idle_initial stopLiveSession_leaves_idle stopLiveSession_blank)

theorem stopLiveSession_noop_witness:
  "stopLiveSession late_world initial = (None, initial\<lparr>effects := [Sleep 400]\<rparr>)
   \<and> scribeBlocks (snd (stopLiveSession late_world initial)) = []
   \<and> messages (snd (stopLiveSession late_world initial)) = []
   \<and> effects (snd (stopLiveSession late_world
        (snd (stopLiveSession late_world scribe_speaking))))
      = effects (snd (stopLiveSession late_world scribe_speaking)) @ [Sleep 400]"
proof -
  have ok: "channel_ok scribe_speaking"
    by (simp add: scribe_speaking_eq channel_ok_def startCapture_def settle_def Let_def quiet_world_def emit_def)
  have a: "idle (snd (stopLiveSession late_world scribe_speaking))"
    using stopLiveSession_noop [of scribe_speaking late_world] ok by simp
  show ?thesis
    using stopLiveSession_noop [of initial late_world]
      stopLiveSession_noop [of "snd (stopLiveSession late_world scribe_speaking)" late_world] a
    by (simp add: initial_def)
qed

section \<open>Post-processing of a finalized utterance\<close>

lemma scribe_path:
  assumes "channel_ok s" "mode s = UNILINGUAL" "finalCaptured E s \<noteq> []"
  shows "stopLiveSession E s
    = (None, refinePhase E (finalCaptured E s) (docLang s) (torn_down E s))"
  using stopLiveSession_ok [OF assms(1), of E] assms(2,3) by (simp add: post_process_def)

text \<open>
  C3. In unilingual mode a non-empty final text \<open>t\<close> is appended to the scribe blocks as
  \<open>\<lparr>original = t, refined = None\<rparr>\<close> before the refinement request is made (the state
  \<open>d1\<close> at the request has it). When \<open>refineToMedicalEnglish\<close> returns \<open>r\<close> for \<open>t\<close>
  and the document language, every block whose \<open>original\<close> is \<open>t\<close>, the earlier
  duplicates included, gets \<open>refined = Some r\<close> and every other block is unchanged; when
  it fails the new block stays as appended. In both cases the \<open>error\<close> cell shown to
  the user is untouched.
\<close>

theorem scribe_entry_refined:
  assumes "channel_ok s" "mode s = UNILINGUAL" "finalCaptured E s \<noteq> []"
  shows "\<exists>s' d1 t. t = finalCaptured E s
    \<and> d1 = emit [RefineRequest t (docLang s)] (appendScribe t (torn_down E s))
    \<and> scribeBlocks d1 = scribeBlocks s @ [\<lparr>original = t, refined = None\<rparr>]
    \<and> stopLiveSession E s = (None, s')
    \<and> (\<forall>r. refineToMedicalEnglish E t (docLang s) = Inr r \<longrightarrow>
          s' = attachRefined t r d1
          \<and> scribeBlocks s'
              = map (\<lambda>b. if original b = t then b\<lparr>refined := Some r\<rparr> else b)
                  (scribeBlocks s @ [\<lparr>original = t, refined = None\<rparr>])
          \<and> (\<forall>b \<in> set (scribeBlocks s'). original b = t \<longrightarrow> refined b = Some r)
          \<and> (\<forall>i < length (scribeBlocks s). original (scribeBlocks s ! i) \<noteq> t \<longrightarrow>
                scribeBlocks s' ! i = scribeBlocks s ! i))
    \<and> (\<forall>e. refineToMedicalEnglish E t (docLang s) = Inl e \<longrightarrow>
          s' = emit [ConsoleError] d1
          \<and> scribeBlocks s' = scribeBlocks s @ [\<lparr>original = t, refined = None\<rparr>])
    \<and> length (scribeBlocks s') = length (scribeBlocks s) + 1
    \<and> error s' = error s"
proof -
  let ?t = "finalCaptured E s"
  let ?d1 = "emit [RefineRequest ?t (docLang s)] (appendScribe ?t (torn_down E s))"
  let ?s' = "refinePhase E ?t (docLang s) (torn_down E s)"
  have blocks: "scribeBlocks ?d1 = scribeBlocks s @ [\<lparr>original = ?t, refined = None\<rparr>]"
    by (simp add: emit_def appendScribe_def torn_down_fields)
  have err: "error ?d1 = error s"
    by (simp add: emit_def appendScribe_def torn_down_fields)
  have ok: "\<forall>r. refineToMedicalEnglish E ?t (docLang s) = Inr r \<longrightarrow>
          ?s' = attachRefined ?t r ?d1
          \<and> scribeBlocks ?s'
              = map (\<lambda>b. if original b = ?t then b\<lparr>refined := Some r\<rparr> else b)
                  (scribeBlocks s @ [\<lparr>original = ?t, refined = None\<rparr>])
          \<and> (\<forall>b \<in> set (scribeBlocks ?s'). original b = ?t \<longrightarrow> refined b = Some r)
          \<and> (\<forall>i < length (scribeBlocks s). original (scribeBlocks s ! i) \<noteq> ?t \<longrightarrow>
                scribeBlocks ?s' ! i = scribeBlocks s ! i)"
    using blocks by (auto simp: refinePhase_def Let_def attachRefined_def nth_append)
  have bad: "\<forall>e. refineToMedicalEnglish E ?t (docLang s) = Inl e \<longrightarrow>
          ?s' = emit [ConsoleError] ?d1
          \<and> scribeBlocks ?s' = scribeBlocks s @ [\<lparr>original = ?t, refined = None\<rparr>]"
    using blocks by (auto simp: refinePhase_def Let_def emit_def)
  have len: "length (scribeBlocks ?s') = length (scribeBlocks s) + 1"
    using blocks
    by (cases "refineToMedicalEnglish E ?t (docLang s)")
      (simp_all add: refinePhase_def Let_def attachRefined_def emit_def)
  have err': "error ?s' = error s"
    using err
    by (cases "refineToMedicalEnglish E ?t (docLang s)")
      (simp_all add: refinePhase_def Let_def attachRefined_def emit_def)
  show ?thesis
    using scribe_path [OF assms] blocks ok bad len err' by blast
qed

lemma repeated_speaking_facts:
  "channel_ok repeated_speaking" "mode repeated_speaking = UNILINGUAL"
  "docLang repeated_speaking = ''English''"
  "finalCaptured late_world repeated_speaking = ''patient has fever''"
  "scribeBlocks repeated_speaking = [\<lparr>original = ''patient has fever'', refined = None\<rparr>]"
  by (simp_all add: repeated_speaking_def scribe_speaking_eq channel_ok_def startCapture_def settle_def
      Let_def quiet_world_def late_world_def emit_def initial_def finalCaptured_def
      deliver_captured connected_def accumulate_def trim_def is_space_def)

theorem scribe_entry_refined_witness:
  "scribeBlocks (snd (stopLiveSession late_world repeated_speaking))
     = [\<lparr>original = ''patient has fever'', refined = Some ''Patient reports fever.''\<rparr>,
        \<lparr>original = ''patient has fever'', refined = Some ''Patient reports fever.''\<rparr>]"
proof -
  have r: "refineToMedicalEnglish late_world ''patient has fever'' ''English''
             = Inr ''Patient reports fever.''"
    by (rule refine_late_world) (simp add: trim_def is_space_def)
  show ?thesis
    using scribe_entry_refined [of repeated_speaking late_world] r
    by (auto simp: repeated_speaking_facts)
qed

lemma dialogue_path:
  assumes "channel_ok s" "mode s = BILINGUAL" "currentRoleRef s = Some r" "r \<noteq> Scribe"
    "finalCaptured E s \<noteq> []"
  shows "stopLiveSession E s
    = (None, handleTranslationPhase_begin r (finalCaptured E s) (torn_down E s))"
proof -
  have "r = Doctor \<or> r = Patient" using assms(4) by (cases r) auto
  then show ?thesis
    using stopLiveSession_ok [OF assms(1), of E] assms(2,3,5) by (auto simp: post_process_def)
qed

lemma begin_fields:
  "messages (handleTranslationPhase_begin r t d) = messages d"
  "scribeBlocks (handleTranslationPhase_begin r t d) = scribeBlocks d"
  "error (handleTranslationPhase_begin r t d) = error d"
  "inflight (handleTranslationPhase_begin r t d) = inflight d @ [translation_task r t d]"
  "effects (handleTranslationPhase_begin r t d)
     = effects d @ [TranslateRequest t (if r = Doctor then docLang d else patLang d)
                      (if r = Doctor then patLang d else docLang d)]"
  by (simp_all add: handleTranslationPhase_begin_def translation_task_def emit_def)

lemma resume_fields:
  "error (handleTranslationPhase_resume E (r, t, from, to) d) = error d"
  "scribeBlocks (handleTranslationPhase_resume E (r, t, from, to) d) = scribeBlocks d"
  "translateAndSpeak E t from to = Inr res \<Longrightarrow>
     messages (handleTranslationPhase_resume E (r, t, from, to) d)
       = messages d @ [\<lparr>role = r, original_m = t, translated = Some (translatedText res),
                        timestamp = nowDate E\<rparr>]"
  "translateAndSpeak E t from to = Inl e \<Longrightarrow>
     messages (handleTranslationPhase_resume E (r, t, from, to) d) = messages d
     \<and> effects (handleTranslationPhase_resume E (r, t, from, to) d) = effects d @ [ConsoleError]"
  by (auto simp: handleTranslationPhase_resume_def Let_def emit_def split: sum.splits)

text \<open>
  C4. In bilingual mode, for the role Doctor or Patient, a non-empty final text \<open>t\<close>
  makes \<open>stopLiveSession\<close> start \<open>handleTranslationPhase\<close>: the translation request is
  issued and nothing is appended yet. When \<open>translateAndSpeak\<close> succeeds, the rest of
  the handler appends exactly one message, with that role, \<open>t\<close> as the original, the
  returned translation and the time stamp; when it fails, the messages are as before
  and the failure goes to the console only. The \<open>error\<close> cell shown to the user is
  untouched either way, also when the audio of a translation cannot be played.
\<close>

theorem dialogue_entry_on_success:
  assumes "channel_ok s" "mode s = BILINGUAL" "currentRoleRef s = Some r" "r \<noteq> Scribe"
    "finalCaptured E s \<noteq> []"
  shows "\<exists>s1 t tk from to. t = finalCaptured E s
    \<and> from = (if r = Doctor then docLang s else patLang s)
    \<and> to = (if r = Doctor then patLang s else docLang s)
    \<and> tk = (r, t, from, to)
    \<and> stopLiveSession E s = (None, s1)
    \<and> messages s1 = messages s \<and> inflight s1 = inflight s @ [tk]
    \<and> handleTranslationPhase_resume E tk s1 = handleTranslationPhase E r t (torn_down E s)
    \<and> (\<forall>res. translateAndSpeak E t from to = Inr res \<longrightarrow>
          messages (handleTranslationPhase_resume E tk s1)
            = messages s @ [\<lparr>role = r, original_m = t,
                              translated = Some (translatedText res), timestamp = nowDate E\<rparr>])
    \<and> (\<forall>e. translateAndSpeak E t from to = Inl e \<longrightarrow>
          messages (handleTranslationPhase_resume E tk s1) = messages s
          \<and> effects (handleTranslationPhase_resume E tk s1) = effects s1 @ [ConsoleError])
    \<and> error (handleTranslationPhase_resume E tk s1) = error s
    \<and> scribeBlocks (handleTranslationPhase_resume E tk s1) = scribeBlocks s"
proof -
  let ?t = "finalCaptured E s"
  let ?from = "if r = Doctor then docLang s else patLang s"
  let ?to = "if r = Doctor then patLang s else docLang s"
  let ?s1 = "handleTranslationPhase_begin r ?t (torn_down E s)"
  have tk: "translation_task r ?t (torn_down E s) = (r, ?t, ?from, ?to)"
    by (simp add: translation_task_def torn_down_fields)
  have a: "messages ?s1 = messages s" "inflight ?s1 = inflight s @ [(r, ?t, ?from, ?to)]"
    "error ?s1 = error s" "scribeBlocks ?s1 = scribeBlocks s"
    by (simp_all add: begin_fields tk torn_down_fields)
  have h: "handleTranslationPhase_resume E (r, ?t, ?from, ?to) ?s1
             = handleTranslationPhase E r ?t (torn_down E s)"
    by (simp add: handleTranslationPhase_def tk)
  let ?s2 = "handleTranslationPhase_resume E (r, ?t, ?from, ?to) ?s1"
  have good: "\<forall>res. translateAndSpeak E ?t ?from ?to = Inr res \<longrightarrow>
          messages ?s2 = messages s @ [\<lparr>role = r, original_m = ?t,
                              translated = Some (translatedText res), timestamp = nowDate E\<rparr>]"
    by (simp add: resume_fields a)
  have bad: "\<forall>e. translateAndSpeak E ?t ?from ?to = Inl e \<longrightarrow>
          messages ?s2 = messages s \<and> effects ?s2 = effects ?s1 @ [ConsoleError]"
    by (simp add: resume_fields a)
  have rest: "error ?s2 = error s" "scribeBlocks ?s2 = scribeBlocks s"
    by (simp_all add: resume_fields a)
  show ?thesis
    using dialogue_path [OF assms] a(1,2) h good bad rest by blast
qed

lemma doctor_speaking_eq:
  "doctor_speaking = (startCapture quiet_world Doctor ''English'' (initial\<lparr>mode := BILINGUAL\<rparr>))
     \<lparr>capturedTextRef := ''hi'', currentInput := ''hi''\<rparr>"
  by (simp add: doctor_speaking_def fragments_fields startCapture_def settle_def Let_def quiet_world_def
      emit_def initial_def accumulate_def)

lemma doctor_speaking_facts:
  "channel_ok doctor_speaking" "mode doctor_speaking = BILINGUAL"
  "currentRoleRef doctor_speaking = Some Doctor" "isLive doctor_speaking = Some Doctor"
  "docLang doctor_speaking = ''English''" "patLang doctor_speaking = ''Hindi''"
  "messages doctor_speaking = []" "scribeBlocks doctor_speaking = []"
  "inflight doctor_speaking = []"
  "late E = [] \<Longrightarrow> finalCaptured E doctor_speaking = ''hi''"
  "effects doctor_speaking = [StreamAcquired, ChannelOpened Doctor ''English'']"
  "release_effects E doctor_speaking
     = [StreamReleased, ChannelClosed Doctor (closeThrows E), ContextClosed]"
  by (simp_all add: doctor_speaking_eq channel_ok_def startCapture_def settle_def Let_def quiet_world_def
      emit_def initial_def finalCaptured_def deliver_captured connected_def accumulate_def
      trim_def is_space_def release_effects_def)

lemma translate_quiet_world:
  "translateAndSpeak quiet_world ''hi'' ''English'' ''Hindi''
     = Inr \<lparr>translatedText = ''namaste'', audioData = []\<rparr>"
  by (simp add: translateAndSpeak_def quiet_world_def withRetry_success trim_def is_space_def)

lemma translate_busy_world:
  "translateAndSpeak busy_world ''hi'' ''English'' ''Hindi'' = Inl QuotaError"
proof -
  let ?fn = "\<lambda>k::nat. Inl rate_limited :: js_error + translation"
  have "withRetry ?fn 0 2 200 = (200 # 400 # fst (withRetry ?fn 2 0 800), snd (withRetry ?fn 2 0 800))"
    by (rule withRetry_twice_then [of ?fn rate_limited rate_limited])
      (simp_all add: is_quota_rate_limited)
  moreover have "withRetry ?fn 2 0 800 = ([], Inl QuotaError)"
    by (rule withRetry_exhausted [of ?fn 2 rate_limited]) (simp_all add: is_quota_rate_limited)
  ultimately have "snd (withRetry ?fn 0 2 200) = Inl QuotaError" by simp
  then show ?thesis
    by (simp add: translateAndSpeak_def busy_world_def quiet_world_def trim_def is_space_def)
qed

theorem dialogue_entry_on_success_witness:
  "messages (handleTranslationPhase_resume quiet_world (Doctor, ''hi'', ''English'', ''Hindi'')
       (snd (stopLiveSession quiet_world doctor_speaking)))
     = [\<lparr>role = Doctor, original_m = ''hi'', translated = Some ''namaste'', timestamp = 0\<rparr>]
   \<and> messages (handleTranslationPhase_resume busy_world (Doctor, ''hi'', ''English'', ''Hindi'')
       (snd (stopLiveSession busy_world doctor_speaking))) = []"
proof -
  have q: "late quiet_world = []" "nowDate quiet_world = 0"
    and b: "late busy_world = []"
    by (simp_all add: quiet_world_def busy_world_def)
  show ?thesis
    using dialogue_entry_on_success [of doctor_speaking Doctor quiet_world]
      dialogue_entry_on_success [of doctor_speaking Doctor busy_world]
      translate_quiet_world translate_busy_world
    by (auto simp: doctor_speaking_facts q b)
qed

section \<open>Switching the role\<close>





















section \<open>Draft assembly\<close>

lemma analyze_fields:
  "effects (analyze E txt details d) = effects d @ [ProcessRequest txt]"
  "status (analyze E txt details d) = IDLE"
  "isLive (analyze E txt details d) = isLive d"
  "scribeBlocks (analyze E txt details d) = scribeBlocks d"
  "messages (analyze E txt details d) = messages d"
  "patientDetails (analyze E txt details d) = patientDetails d"
  "processConsultation E txt = Inr res \<Longrightarrow>
     draft (analyze E txt details d) = Some (res\<lparr>demographics := details\<rparr>)
     \<and> step (analyze E txt details d) = SUMMARY \<and> error (analyze E txt details d) = None"
  "processConsultation E txt = Inl e \<Longrightarrow>
     draft (analyze E txt details d) = draft d \<and> step (analyze E txt details d) = step d
     \<and> error (analyze E txt details d) = Some ''AI analysis error.''"
  by (auto simp: analyze_def Let_def emit_def split: sum.splits)

lemma post_process_keeps:
  "draft (post_process E s d) = draft d" "patientDetails (post_process E s d) = patientDetails d"
  "step (post_process E s d) = step d"
  by (auto simp: post_process_def handleTranslationPhase_begin_def translation_task_def
      refinePhase_def appendScribe_def attachRefined_def emit_def Let_def split: sum.splits)

lemma stopped_fields:
  assumes "channel_ok s"
  shows "\<exists>s1. stopLiveSession E s = (None, s1) \<and> isLive s1 = None \<and> streamRef s1 = None
    \<and> sessionRef s1 = None \<and> draft s1 = draft s \<and> patientDetails s1 = patientDetails s
    \<and> step s1 = step s"
  using stopLiveSession_ok [OF assms, of E]
  by (simp add: post_process_fields post_process_keeps torn_down_fields)

text \<open>
  \<open>handleAnalyze\<close> on a state whose channel promise (if any) resolves: a live
  capture is stopped first (\<open>stopLiveSession\<close> has returned, nothing is live and no
  stream or channel is held) and only then is the request to the reasoning service made.
  When \<open>processConsultation\<close> succeeds, the draft is its result with the demographics
  replaced by the patient details, and the step is \<open>SUMMARY\<close>. When it fails, the error
  shown is ''AI analysis error.'', and the scribe blocks, the messages, the patient
  details, the draft and the step are what they were when the request was made (what
  they were at the call, when no capture was live).
\<close>

lemma handleAnalyze_outcomes:
  assumes "channel_ok s"
  shows "\<exists>s1 s'. (if isLive s \<noteq> None then stopLiveSession E s else (None, s)) = (None, s1)
    \<and> handleAnalyze E s = (None, s')
    \<and> isLive s1 = None \<and> (isLive s \<noteq> None \<longrightarrow> streamRef s1 = None \<and> sessionRef s1 = None)
    \<and> (isLive s = None \<longrightarrow> s1 = s)
    \<and> effects s' = effects s1 @ [ProcessRequest (transcriptText s)]
    \<and> isLive s' = None \<and> status s' = IDLE
    \<and> patientDetails s' = patientDetails s
    \<and> (\<forall>res. processConsultation E (transcriptText s) = Inr res \<longrightarrow>
          draft s' = Some (res\<lparr>demographics := patientDetails s'\<rparr>)
          \<and> step s' = SUMMARY \<and> error s' = None)
    \<and> (\<forall>e. processConsultation E (transcriptText s) = Inl e \<longrightarrow>
          error s' = Some ''AI analysis error.''
          \<and> scribeBlocks s' = scribeBlocks s1 \<and> messages s' = messages s1
          \<and> draft s' = draft s \<and> step s' = step s)"
proof (cases "isLive s = None")
  case True
  then show ?thesis
    by (auto simp: handleAnalyze_def analyze_fields)
next
  case False
  obtain s1 where s1: "stopLiveSession E s = (None, s1)" "isLive s1 = None" "streamRef s1 = None"
    "sessionRef s1 = None" "draft s1 = draft s" "patientDetails s1 = patientDetails s"
    "step s1 = step s"
    using stopped_fields [OF assms, of E] by blast
  with False show ?thesis
    by (auto simp: handleAnalyze_def analyze_fields)
qed

lemma noted_facts:
  "channel_ok noted" "isLive noted = None"
  "transcriptText noted = ''patient has fever (Refined: Patient reports fever.)''"
  "patientDetails noted = \<lparr>name = ''Asha'', age = ''41'', gender = ''Female''\<rparr>"
  "scribeBlocks noted = [\<lparr>original = ''patient has fever'',
                          refined = Some ''Patient reports fever.''\<rparr>]"
  "draft noted = None" "step noted = CAPTURE"
  by (simp_all add: noted_def initial_def channel_ok_def transcriptText_def or_undefined_def)

lemma process_soap_world:
  "processConsultation soap_world ''patient has fever (Refined: Patient reports fever.)''
     = Inr (sample_draft\<lparr>draft_id := ''id-1'', date := ''2025-01-01T00:00:00.000Z''\<rparr>)"
  by (simp add: processConsultation_def soap_world_def quiet_world_def withRetry_success
      trim_def is_space_def)

lemma process_quiet_world:
  "processConsultation quiet_world ''patient has fever (Refined: Patient reports fever.)''
     = Inl server_error"
  using withRetry_other [of "\<lambda>k. Inl server_error :: js_error + ConsultationDraft" 0 server_error 2 200]
    not_quota_server_error
  by (simp add: processConsultation_def quiet_world_def trim_def is_space_def)

lemma handleAnalyze_outcomes_example:
  "draft (snd (handleAnalyze soap_world noted))
     = Some (sample_draft\<lparr>draft_id := ''id-1'', date := ''2025-01-01T00:00:00.000Z'',
          demographics := \<lparr>name = ''Asha'', age = ''41'', gender = ''Female''\<rparr>\<rparr>)
   \<and> step (snd (handleAnalyze soap_world noted)) = SUMMARY
   \<and> error (snd (handleAnalyze quiet_world noted)) = Some ''AI analysis error.''
   \<and> scribeBlocks (snd (handleAnalyze quiet_world noted))
       = [\<lparr>original = ''patient has fever'', refined = Some ''Patient reports fever.''\<rparr>]
   \<and> draft (snd (handleAnalyze quiet_world noted)) = None
   \<and> step (snd (handleAnalyze quiet_world noted)) = CAPTURE"
  using handleAnalyze_outcomes [of noted soap_world] handleAnalyze_outcomes [of noted quiet_world]
    process_soap_world process_quiet_world
  by (auto simp: noted_facts)

lemma handleAnalyze_live_example:
  "fst (handleAnalyze soap_world repeated_speaking) = None
   \<and> effects (snd (handleAnalyze soap_world repeated_speaking))
       = [StreamAcquired, ChannelOpened Scribe ''English'', Sleep 400, StreamReleased,
          ChannelClosed Scribe False, ContextClosed, RefineRequest ''patient has'' ''English'',
          ProcessRequest ''patient has fever (Refined: undefined)'']
   \<and> isLive (snd (handleAnalyze soap_world repeated_speaking)) = None
   \<and> step (snd (handleAnalyze soap_world repeated_speaking)) = SUMMARY"
proof -
  let ?s = repeated_speaking
  have ok: "channel_ok ?s" by (rule repeated_speaking_facts(1))
  have live: "isLive ?s = Some Scribe"
    and eff: "effects ?s = [StreamAcquired, ChannelOpened Scribe ''English'']"
    and rel: "release_effects soap_world ?s
                = [StreamReleased, ChannelClosed Scribe False, ContextClosed]"
    and fin: "finalCaptured soap_world ?s = ''patient has''"
    by (simp_all add: repeated_speaking_def scribe_speaking_eq startCapture_def settle_def
        Let_def quiet_world_def soap_world_def emit_def initial_def finalCaptured_def
        deliver_captured connected_def release_effects_def trim_def is_space_def)
  have ref: "refineToMedicalEnglish soap_world ''patient has'' ''English''
      = Inr ''Patient reports fever.''"
    by (simp add: refineToMedicalEnglish_def soap_world_def quiet_world_def withRetry_success
        trim_def is_space_def)
  have post: "post_effects soap_world ?s = [RefineRequest ''patient has'' ''English'']"
    by (simp add: post_effects_def fin ref repeated_speaking_facts(2,3))
  have tx: "transcriptText ?s = ''patient has fever (Refined: undefined)''"
    by (simp add: transcriptText_def repeated_speaking_facts(2,5) or_undefined_def)
  have pc: "processConsultation soap_world ''patient has fever (Refined: undefined)''
      = Inr (sample_draft\<lparr>draft_id := ''id-1'', date := ''2025-01-01T00:00:00.000Z''\<rparr>)"
    by (simp add: processConsultation_def soap_world_def quiet_world_def withRetry_success
        trim_def is_space_def)
  obtain s1 where s1: "stopLiveSession soap_world ?s = (None, s1)"
    "effects s1 = effects ?s @ [Sleep 400] @ release_effects soap_world ?s
                    @ post_effects soap_world ?s"
    using stopLiveSession_idle [OF ok, of soap_world] by blast
  show ?thesis
    using handleAnalyze_outcomes [OF ok, of soap_world] pc
    by (auto simp: live s1 eff rel post tx)
qed

lemma process_dead_soap_world:
  "processConsultation dead_soap_world ''patient has fever (Refined: Patient reports fever.)''
     = Inr (sample_draft\<lparr>draft_id := ''id-1'', date := ''2025-01-01T00:00:00.000Z''\<rparr>)"
  by (simp add: processConsultation_def dead_soap_world_def soap_world_def quiet_world_def
      withRetry_success trim_def is_space_def)

lemma handleAnalyze_rejects:
  assumes "isLive s \<noteq> None" "sessionRef s = Some (SessionPromise r False)"
  shows "handleAnalyze E s = (Some ConnectError, snd (stopLiveSession E s))"
proof -
  obtain s1 where s1: "stopLiveSession E s = (Some ConnectError, s1)"
    using stopLiveSession_rejects_fields(1) [OF assms(2), of E]
    by (cases "stopLiveSession E s") simp
  show ?thesis
    using assms(1) by (simp add: handleAnalyze_def s1)
qed

text \<open>
  C2. On the capture \<open>stuck_capture\<close> (the Scribe live on a channel promise that
  rejects, one block in the log) \<open>handleAnalyze\<close> does not get as far as the reasoning
  service, although the service would answer: \<open>stopLiveSession\<close> rejects inside
  \<open>cleanupSession\<close>, at \<^verbatim>\<open>await sessionRef.current\<close>, and \<open>handleAnalyze\<close>
  rejects with it. The capture is not stopped (the role is still live, the channel
  promise still held), no request is made, the status never becomes \<open>PROCESSING\<close>, no
  draft is set, the step is still \<open>CAPTURE\<close> and no error is shown; calling it again
  gives the same.
\<close>

theorem handleAnalyze_stuck:
  "isLive stuck_capture = Some Scribe
   \<and> transcriptText stuck_capture = ''patient has fever (Refined: Patient reports fever.)''
   \<and> processConsultation dead_soap_world (transcriptText stuck_capture)
       = Inr (sample_draft\<lparr>draft_id := ''id-1'', date := ''2025-01-01T00:00:00.000Z''\<rparr>)
   \<and> fst (handleAnalyze dead_soap_world stuck_capture) = Some ConnectError
   \<and> effects (snd (handleAnalyze dead_soap_world stuck_capture))
       = effects stuck_capture @ [Sleep 400, StreamReleased]
   \<and> isLive (snd (handleAnalyze dead_soap_world stuck_capture)) = Some Scribe
   \<and> sessionRef (snd (handleAnalyze dead_soap_world stuck_capture))
       = Some (SessionPromise Scribe False)
   \<and> status (snd (handleAnalyze dead_soap_world stuck_capture)) = IDLE
   \<and> draft (snd (handleAnalyze dead_soap_world stuck_capture)) = None
   \<and> step (snd (handleAnalyze dead_soap_world stuck_capture)) = CAPTURE
   \<and> error (snd (handleAnalyze dead_soap_world stuck_capture)) = None
   \<and> fst (handleAnalyze dead_soap_world (snd (handleAnalyze dead_soap_world stuck_capture)))
       = Some ConnectError
   \<and> draft (snd (handleAnalyze dead_soap_world
        (snd (handleAnalyze dead_soap_world stuck_capture)))) = None"
proof -
  note f = stuck_capture_facts
  have live: "isLive stuck_capture \<noteq> None" by (simp add: f(2))
  note r = stopLiveSession_rejects_fields [OF f(7), of dead_soap_world]
  have h: "handleAnalyze dead_soap_world stuck_capture
      = (Some ConnectError, snd (stopLiveSession dead_soap_world stuck_capture))"
    by (rule handleAnalyze_rejects [OF live f(7)])
  let ?s1 = "snd (stopLiveSession dead_soap_world stuck_capture)"
  have s: "sessionRef ?s1 = Some (SessionPromise Scribe False)"
    by (simp add: r(7) f(7))
  have live1: "isLive ?s1 \<noteq> None" by (simp add: r(3) f(2))
  note r2 = stopLiveSession_rejects_fields [OF s, of dead_soap_world]
  have h2: "handleAnalyze dead_soap_world ?s1
      = (Some ConnectError, snd (stopLiveSession dead_soap_world ?s1))"
    by (rule handleAnalyze_rejects [OF live1 s])
  have t: "transcriptText stuck_capture = ''patient has fever (Refined: Patient reports fever.)''"
    by (simp add: transcriptText_def f(10,14) noted_facts(5) or_undefined_def)
  show ?thesis
    by (simp add: h h2 t process_dead_soap_world f r r2(1,13))
qed

section \<open>Prescription verification\<close>

lemma verifyMedication_markPending:
  "idx < length (prescriptions d) \<Longrightarrow>
   verifyMedication E (prescriptions (markPending idx d) ! idx)
     = verifyMedication E (prescriptions d ! idx)"
  by (simp add: verifyMedication_def markPending_def)

lemma markItem_markPending:
  "idx < length (prescriptions d) \<Longrightarrow>
   markItem idx st msg (markPending idx d)
     = d\<lparr>prescriptions := (prescriptions d)
           [idx := (prescriptions d ! idx)\<lparr>verificationStatus := Some st,
                                             verificationError := msg\<rparr>]\<rparr>"
  by (simp add: markItem_def markPending_def)

lemma verifyBegin_fields:
  assumes "idx < length (prescriptions d)"
  shows "draft (verifyBegin idx d s) = Some (markPending idx d)"
    "effects (verifyBegin idx d s)
       = effects s @ [VerifyRequest (medicineName (prescriptions d ! idx))
                        (dosage (prescriptions d ! idx))]"
    "verificationStatus (prescriptions (markPending idx d) ! idx) = Some Pending"
  using assms by (simp_all add: verifyBegin_def Let_def emit_def markPending_def)

text \<open>
  C8. \<open>handleVerifyMedicine\<close> for an index of the draft's prescriptions: at the request
  to the audit service the item's status is \<open>Pending\<close>, and the request carries the
  item's name and dosage (the result depends on nothing else of the item). On a reply the
  item is \<open>Verified\<close> when the reply says valid and \<open>Warning\<close> otherwise, with the
  reply's message; when the call fails the item is \<open>Warning\<close> with the message
  ''Audit timeout.''. In the final draft nothing else differs from the draft at
  the call: the other prescriptions, the item's own other fields, the number of
  prescriptions and the other fields of the draft are the same.
\<close>

theorem handleVerifyMedicine_marks:
  assumes "draft s = Some d" "idx < length (prescriptions d)"
  shows "\<exists>s1 s' d'. s1 = verifyBegin idx d s
    \<and> draft s1 = Some (markPending idx d)
    \<and> verificationStatus (prescriptions (markPending idx d) ! idx) = Some Pending
    \<and> effects s1 = effects s @ [VerifyRequest (medicineName (prescriptions d ! idx))
                                   (dosage (prescriptions d ! idx))]
    \<and> handleVerifyMedicine E idx s = (None, s')
    \<and> s' = verifyResume (verifyMedication E (prescriptions d ! idx)) idx (markPending idx d) s1
    \<and> verifyMedication E (prescriptions d ! idx)
        = snd (withRetry (\<lambda>k. gen_verify E (medicineName (prescriptions d ! idx))
                                (dosage (prescriptions d ! idx)) k) 0 2 200)
    \<and> draft s' = Some d'
    \<and> (\<forall>res. verifyMedication E (prescriptions d ! idx) = Inr res \<longrightarrow>
          d' = d\<lparr>prescriptions := (prescriptions d)
                 [idx := (prescriptions d ! idx)
                    \<lparr>verificationStatus := Some (if isValid res then Verified else Warning),
                     verificationError := errorMsg res\<rparr>]\<rparr>)
    \<and> (\<forall>e. verifyMedication E (prescriptions d ! idx) = Inl e \<longrightarrow>
          d' = d\<lparr>prescriptions := (prescriptions d)
                 [idx := (prescriptions d ! idx)
                    \<lparr>verificationStatus := Some Warning,
                     verificationError := Some ''Audit timeout.''\<rparr>]\<rparr>)
    \<and> length (prescriptions d') = length (prescriptions d)
    \<and> (\<forall>j < length (prescriptions d). j \<noteq> idx \<longrightarrow> prescriptions d' ! j = prescriptions d ! j)
    \<and> effects s' = effects s1"
proof -
  let ?s1 = "verifyBegin idx d s"
  let ?reply = "verifyMedication E (prescriptions d ! idx)"
  let ?s' = "verifyResume ?reply idx (markPending idx d) ?s1"
  let ?mark = "\<lambda>st msg. d\<lparr>prescriptions := (prescriptions d)
                [idx := (prescriptions d ! idx)\<lparr>verificationStatus := Some st,
                                                  verificationError := msg\<rparr>]\<rparr>"
  have h: "handleVerifyMedicine E idx s = (None, ?s')"
    using assms by (simp add: handleVerifyMedicine_def Let_def verifyMedication_markPending)
  have v: "?reply = snd (withRetry (\<lambda>k. gen_verify E (medicineName (prescriptions d ! idx))
                                (dosage (prescriptions d ! idx)) k) 0 2 200)"
    by (simp add: verifyMedication_def)
  have e: "effects ?s' = effects ?s1"
    by (cases ?reply) (simp_all add: verifyResume_def)
  have b: "draft ?s1 = Some (markPending idx d)"
    "effects ?s1 = effects s @ [VerifyRequest (medicineName (prescriptions d ! idx))
                                   (dosage (prescriptions d ! idx))]"
    "verificationStatus (prescriptions (markPending idx d) ! idx) = Some Pending"
    by (simp_all add: verifyBegin_fields [OF assms(2)])
  show ?thesis
  proof (cases ?reply)
    case (Inl err)
    let ?d' = "?mark Warning (Some ''Audit timeout.'')"
    have dr: "draft ?s' = Some ?d'"
      using assms(2) by (simp add: Inl verifyResume_def markItem_markPending)
    have rest: "length (prescriptions ?d') = length (prescriptions d)"
      "\<forall>j < length (prescriptions d). j \<noteq> idx \<longrightarrow> prescriptions ?d' ! j = prescriptions d ! j"
      by simp_all
    have good: "\<forall>res. ?reply = Inr res \<longrightarrow>
            ?d' = ?mark (if isValid res then Verified else Warning) (errorMsg res)"
      by (simp add: Inl)
    have bad: "\<forall>e. ?reply = Inl e \<longrightarrow> ?d' = ?mark Warning (Some ''Audit timeout.'')"
      by simp
    show ?thesis
      using b h v e dr rest good bad by blast
  next
    case (Inr res)
    let ?d' = "?mark (if isValid res then Verified else Warning) (errorMsg res)"
    have dr: "draft ?s' = Some ?d'"
      using assms(2) by (simp add: Inr verifyResume_def markItem_markPending)
    have rest: "length (prescriptions ?d') = length (prescriptions d)"
      "\<forall>j < length (prescriptions d). j \<noteq> idx \<longrightarrow> prescriptions ?d' ! j = prescriptions d ! j"
      by simp_all
    have good: "\<forall>r. ?reply = Inr r \<longrightarrow>
            ?d' = ?mark (if isValid r then Verified else Warning) (errorMsg r)"
      by (simp add: Inr)
    have bad: "\<forall>e. ?reply = Inl e \<longrightarrow> ?d' = ?mark Warning (Some ''Audit timeout.'')"
      by (simp add: Inr)
    show ?thesis
      using b h v e dr rest good bad by blast
  qed
qed

lemma reviewing_facts:
  "draft reviewing = Some sample_draft" "prescriptions sample_draft = [paracetamol, ibuprofen]"
  by (simp_all add: reviewing_def sample_draft_def)

lemma verify_worlds:
  "verifyMedication audit_world ibuprofen = Inr \<lparr>isValid = False, errorMsg = Some ''Dose too high''\<rparr>"
  "verifyMedication audit_world paracetamol = Inr \<lparr>isValid = True, errorMsg = None\<rparr>"
  "verifyMedication offline_world paracetamol = Inl server_error"
  using withRetry_other [of "\<lambda>k. Inl server_error :: js_error + audit" 0 server_error 2 200]
    not_quota_server_error
  by (simp_all add: verifyMedication_def audit_world_def offline_world_def quiet_world_def
      ibuprofen_def paracetamol_def withRetry_success)

theorem handleVerifyMedicine_marks_witness:
  "draft (snd (handleVerifyMedicine audit_world 1 reviewing))
     = Some (sample_draft\<lparr>prescriptions :=
         [paracetamol, ibuprofen\<lparr>verificationStatus := Some Warning,
                                  verificationError := Some ''Dose too high''\<rparr>]\<rparr>)
   \<and> draft (snd (handleVerifyMedicine audit_world 0 reviewing))
     = Some (sample_draft\<lparr>prescriptions :=
         [paracetamol\<lparr>verificationStatus := Some Verified, verificationError := None\<rparr>,
          ibuprofen]\<rparr>)
   \<and> draft (snd (handleVerifyMedicine offline_world 0 reviewing))
     = Some (sample_draft\<lparr>prescriptions :=
         [paracetamol\<lparr>verificationStatus := Some Warning,
                       verificationError := Some ''Audit timeout.''\<rparr>,
          ibuprofen]\<rparr>)"
  using handleVerifyMedicine_marks [of reviewing sample_draft 1 audit_world]
    handleVerifyMedicine_marks [of reviewing sample_draft 0 audit_world]
    handleVerifyMedicine_marks [of reviewing sample_draft 0 offline_world]
    verify_worlds
  by (auto simp: reviewing_facts)

end
